theory Spec2Isabelle
  imports Complex_Main
begin

chapter \<open>The model: connection manager, reconciliation, sniper alerts, rate cache\<close>

text \<open>
  A shallow embedding of the parts of \<^verbatim>\<open>src/bot.js\<close> that the specification talks about.
  The definitions come first; the theorems follow in the second chapter.
\<close>

section \<open>JavaScript numbers\<close>

text \<open>
  A JavaScript \<^verbatim>\<open>Number\<close> is an IEEE-754 binary64 value. A finite one is the rational it
  denotes; every arithmetic operation computes the exact rational result and rounds it to
  the nearest binary64 value, ties to even (\<open>fl\<close>). The model has a single zero: the
  negative zero of IEEE-754 behaves differently only as a divisor, and no divisor of the
  code modelled here can be zero (\<^verbatim>\<open>marketRate\<close> is checked to be truthy before it divides, the
  other divisors are the literals \<^verbatim>\<open>1e18\<close> and \<^verbatim>\<open>2\<close>).
\<close>

datatype jsnum = Num rat | PosInf | NegInf | NaN

text \<open>\<open>ilog2 n\<close> is the position of the leading bit of a positive integer.\<close>

function ilog2 :: "int \<Rightarrow> int" where
  "ilog2 n = (if n < 2 then 0 else 1 + ilog2 (n div 2))"
  by pat_completeness auto
termination
  by (relation "measure nat") auto

declare ilog2.simps [simp del]

definition pow2 :: "int \<Rightarrow> rat" where
  "pow2 k = (if 0 \<le> k then 2 ^ nat k else 1 / 2 ^ nat (- k))"

text \<open>The binary exponent \<open>e\<close> of a non-zero rational: \<open>2^e \<le> \<bar>x\<bar> < 2^(e+1)\<close>.\<close>

definition binade :: "rat \<Rightarrow> int" where
  "binade x =
     (let (p, q) = quotient_of \<bar>x\<bar>;
          e0 = ilog2 p - ilog2 q
      in if pow2 e0 \<le> \<bar>x\<bar> then e0 else e0 - 1)"

definition roundHalfEven :: "rat \<Rightarrow> int" where
  "roundHalfEven m =
     (let f = \<lfloor>m\<rfloor>; r = m - of_int f
      in if r < 1 / 2 then f
         else if 1 / 2 < r then f + 1
         else if even f then f else f + 1)"

text \<open>
  The spacing of binary64 values around \<open>x\<close>: 53 significant bits for normal numbers, the
  fixed spacing \<open>2^-1074\<close> below \<open>2^-1022\<close>.
\<close>

definition ulpOf :: "rat \<Rightarrow> rat" where
  "ulpOf x = pow2 (max (binade x) (- 1022) - 52)"

definition significand :: "rat \<Rightarrow> int" where
  "significand x = roundHalfEven (x / ulpOf x)"

definition overflows :: "rat \<Rightarrow> bool" where
  "overflows x \<longleftrightarrow>
     1024 \<le> binade x \<or> (binade x = 1023 \<and> \<bar>significand x\<bar> = 2 ^ 53)"

definition fl :: "rat \<Rightarrow> jsnum" where
  "fl x =
     (if x = 0 then Num 0
      else if overflows x then (if 0 < x then PosInf else NegInf)
      else Num (of_int (significand x) * ulpOf x))"

text \<open>\<^verbatim>\<open>a - b\<close>\<close>

fun jsSub :: "jsnum \<Rightarrow> jsnum \<Rightarrow> jsnum" where
  "jsSub NaN _ = NaN"
| "jsSub _ NaN = NaN"
| "jsSub (Num a) (Num b) = fl (a - b)"
| "jsSub (Num a) PosInf = NegInf"
| "jsSub (Num a) NegInf = PosInf"
| "jsSub PosInf PosInf = NaN"
| "jsSub PosInf _ = PosInf"
| "jsSub NegInf NegInf = NaN"
| "jsSub NegInf _ = NegInf"

text \<open>\<^verbatim>\<open>a + b\<close>\<close>

fun jsAdd :: "jsnum \<Rightarrow> jsnum \<Rightarrow> jsnum" where
  "jsAdd NaN _ = NaN"
| "jsAdd _ NaN = NaN"
| "jsAdd (Num a) (Num b) = fl (a + b)"
| "jsAdd (Num a) PosInf = PosInf"
| "jsAdd (Num a) NegInf = NegInf"
| "jsAdd PosInf NegInf = NaN"
| "jsAdd PosInf _ = PosInf"
| "jsAdd NegInf PosInf = NaN"
| "jsAdd NegInf _ = NegInf"

text \<open>The sign of a number that is not NaN: \<open>1\<close>, \<open>0\<close> or \<open>-1\<close>.\<close>

fun jsSign :: "jsnum \<Rightarrow> int" where
  "jsSign (Num a) = (if a = 0 then 0 else if 0 < a then 1 else - 1)"
| "jsSign PosInf = 1"
| "jsSign NegInf = - 1"
| "jsSign NaN = 0"

definition infOfSign :: "int \<Rightarrow> jsnum" where
  "infOfSign k = (if k = 0 then NaN else if 0 < k then PosInf else NegInf)"

text \<open>\<^verbatim>\<open>a * b\<close>\<close>

fun jsMul :: "jsnum \<Rightarrow> jsnum \<Rightarrow> jsnum" where
  "jsMul NaN _ = NaN"
| "jsMul _ NaN = NaN"
| "jsMul (Num a) (Num b) = fl (a * b)"
| "jsMul a b = infOfSign (jsSign a * jsSign b)"

text \<open>\<^verbatim>\<open>a / b\<close>; a zero divisor is the positive zero.\<close>

fun jsDiv :: "jsnum \<Rightarrow> jsnum \<Rightarrow> jsnum" where
  "jsDiv NaN _ = NaN"
| "jsDiv _ NaN = NaN"
| "jsDiv (Num a) (Num b) = (if b = 0 then infOfSign (jsSign (Num a)) else fl (a / b))"
| "jsDiv (Num a) _ = Num 0"
| "jsDiv a (Num b) = infOfSign (jsSign a * (if b < 0 then - 1 else 1))"
| "jsDiv _ _ = NaN"

text \<open>\<^verbatim>\<open>a >= b\<close> and \<^verbatim>\<open>a < b\<close>: every comparison with NaN is false.\<close>

fun jsGe :: "jsnum \<Rightarrow> jsnum \<Rightarrow> bool" where
  "jsGe NaN _ = False"
| "jsGe _ NaN = False"
| "jsGe (Num a) (Num b) = (b \<le> a)"
| "jsGe PosInf _ = True"
| "jsGe _ NegInf = True"
| "jsGe _ _ = False"

fun jsLt :: "jsnum \<Rightarrow> jsnum \<Rightarrow> bool" where
  "jsLt NaN _ = False"
| "jsLt _ NaN = False"
| "jsLt (Num a) (Num b) = (a < b)"
| "jsLt PosInf _ = False"
| "jsLt _ NegInf = False"
| "jsLt _ _ = True"

text \<open>\<^verbatim>\<open>Math.min(a, b)\<close>\<close>

definition jsMin :: "jsnum \<Rightarrow> jsnum \<Rightarrow> jsnum" where
  "jsMin a b = (if a = NaN \<or> b = NaN then NaN else if jsLt b a then b else a)"

text \<open>
  \<^verbatim>\<open>Math.pow(b, n)\<close> for an exponent that is a natural number, taken to be correctly
  rounded (the language leaves the last bit to the engine; where the exact power is a
  binary64 value, as for the first 33 powers of 1.5, engines return it).
\<close>

fun jsPow :: "jsnum \<Rightarrow> nat \<Rightarrow> jsnum" where
  "jsPow _ 0 = Num 1"
| "jsPow (Num b) n = fl (b ^ n)"
| "jsPow NaN n = NaN"
| "jsPow PosInf n = PosInf"
| "jsPow NegInf n = (if even n then PosInf else NegInf)"

text \<open>Truthiness of a number: \<^verbatim>\<open>0\<close> and \<^verbatim>\<open>NaN\<close> are falsy.\<close>

fun truthy :: "jsnum \<Rightarrow> bool" where
  "truthy (Num a) = (a \<noteq> 0)"
| "truthy NaN = False"
| "truthy _ = True"

text \<open>\<^verbatim>\<open>Number(n)\<close> for a BigInt.\<close>

definition Number_of :: "int \<Rightarrow> jsnum" where
  "Number_of n = fl (of_int n)"

section \<open>ResilientWebSocketProvider\<close>

text \<open>
  The fields of the class. \<open>provider\<close> is \<open>None\<close> for \<^verbatim>\<open>null\<close>; a provider object is
  represented by the \<^verbatim>\<open>readyState\<close> of its \<^verbatim>\<open>_websocket\<close>, \<open>None\<close> when the object
  has no \<^verbatim>\<open>_websocket\<close>. \<open>reconnectTimer\<close> holds the delay of the pending reconnection
  timer, \<open>None\<close> when none is pending; \<open>keepAliveTimer\<close> tells whether the 30 s interval
  runs. Times are milliseconds as \<^verbatim>\<open>Date.now()\<close> gives them.

  Two timers of the class are not kept in any field, so they cannot be cancelled:
  \<open>restartTimers\<close> counts the pending 3 s timers armed by \<^verbatim>\<open>restart\<close>, and \<open>closeTimers\<close>
  the pending 2 s timers armed by the \<^verbatim>\<open>close\<close> listener.
\<close>

record ResilientWebSocketProvider =
  reconnectDelay :: jsnum
  maxReconnectDelay :: jsnum
  reconnectAttempts :: nat
  maxReconnectAttempts :: nat
  isConnecting :: bool
  isDestroyed :: bool
  provider :: "nat option option"
  reconnectTimer :: "jsnum option"
  keepAliveTimer :: bool
  lastActivityTime :: int
  restartTimers :: nat
  closeTimers :: nat

definition stopKeepAlive :: "ResilientWebSocketProvider \<Rightarrow> ResilientWebSocketProvider" where
  "stopKeepAlive s = s\<lparr>keepAliveTimer := False\<rparr>"

definition startKeepAlive :: "ResilientWebSocketProvider \<Rightarrow> ResilientWebSocketProvider" where
  "startKeepAlive s = (stopKeepAlive s)\<lparr>keepAliveTimer := True\<rparr>"

text \<open>
  \<^verbatim>\<open>cleanup\<close> stops the keep-alive, removes the listeners and asks the socket to close.
  The \<^verbatim>\<open>readyState\<close> itself is changed by the transport, later (event \<open>ReadyState\<close>).
\<close>

definition cleanup :: "ResilientWebSocketProvider \<Rightarrow> ResilientWebSocketProvider" where
  "cleanup s = (case provider s of None \<Rightarrow> s | Some ws \<Rightarrow> stopKeepAlive s)"

text \<open>
  \<^verbatim>\<open>connect\<close> up to its \<^verbatim>\<open>await\<close> of the handshake: the guard, the flag, the cleanup of
  an old provider and the new provider, whose socket state is \<open>ws\<close>. Passing the guard is
  the transition into the state Connecting.
\<close>

definition connect :: "nat option \<Rightarrow> ResilientWebSocketProvider \<Rightarrow> ResilientWebSocketProvider" where
  "connect ws s =
     (if isConnecting s \<or> isDestroyed s then s
      else (cleanup (s\<lparr>isConnecting := True\<rparr>))\<lparr>provider := Some ws\<rparr>)"

definition scheduleReconnect :: "ResilientWebSocketProvider \<Rightarrow> ResilientWebSocketProvider" where
  "scheduleReconnect s =
     (if isConnecting s \<or> isDestroyed s then s
      else let s1 = stopKeepAlive (s\<lparr>reconnectTimer := None\<rparr>);
               s2 = s1\<lparr>reconnectAttempts := reconnectAttempts s1 + 1\<rparr>
           in if reconnectAttempts s2 > maxReconnectAttempts s2 then s2
              else s2\<lparr>reconnectTimer :=
                     Some (jsMin (jsMul (reconnectDelay s2)
                                        (jsPow (Num (3 / 2)) (reconnectAttempts s2)))
                                 (maxReconnectDelay s2))\<rparr>)"

text \<open>The rest of \<^verbatim>\<open>connect\<close>: the handshake succeeded at time \<open>now\<close>, or it failed.\<close>

definition connectSucceeded :: "int \<Rightarrow> ResilientWebSocketProvider \<Rightarrow> ResilientWebSocketProvider" where
  "connectSucceeded now s =
     startKeepAlive (s\<lparr>lastActivityTime := now, reconnectAttempts := 0,
                       reconnectDelay := Num 1000, isConnecting := False\<rparr>)"

definition connectFailed :: "ResilientWebSocketProvider \<Rightarrow> ResilientWebSocketProvider" where
  "connectFailed s =
     (let s1 = s\<lparr>isConnecting := False\<rparr>
      in if \<not> isDestroyed s1 then scheduleReconnect s1 else s1)"

definition constructor :: "int \<Rightarrow> nat option \<Rightarrow> ResilientWebSocketProvider" where
  "constructor now ws =
     connect ws
       \<lparr>reconnectDelay = Num 1000, maxReconnectDelay = Num 30000, reconnectAttempts = 0,
        maxReconnectAttempts = 50, isConnecting = False, isDestroyed = False,
        provider = None, reconnectTimer = None, keepAliveTimer = False,
        lastActivityTime = now, restartTimers = 0, closeTimers = 0\<rparr>"

definition restart :: "ResilientWebSocketProvider \<Rightarrow> ResilientWebSocketProvider" where
  "restart s =
     (let s1 = cleanup (stopKeepAlive
                 (s\<lparr>reconnectAttempts := 0, reconnectDelay := Num 1000, reconnectTimer := None\<rparr>))
      in s1\<lparr>restartTimers := restartTimers s1 + 1\<rparr>)"

definition destroy :: "ResilientWebSocketProvider \<Rightarrow> ResilientWebSocketProvider" where
  "destroy s =
     (cleanup (stopKeepAlive (s\<lparr>isDestroyed := True, reconnectTimer := None\<rparr>)))\<lparr>provider := None\<rparr>"

text \<open>The getter \<^verbatim>\<open>isConnected\<close>, read at time \<open>now\<close>.\<close>

definition isConnected :: "int \<Rightarrow> ResilientWebSocketProvider \<Rightarrow> bool" where
  "isConnected now s =
     (case provider s of
        None \<Rightarrow> False
      | Some None \<Rightarrow> False
      | Some (Some readyState) \<Rightarrow> readyState = 1 \<and> now - lastActivityTime s < 120000)"

text \<open>
  What can happen to a connection. The timers and listeners of the class run the
  methods above; the health check is the process-wide interval at the end of the file,
  which restarts a provider that is not connected.
\<close>

datatype event =
    HandshakeOk int
  | HandshakeFailed
  | ReconnectTimerFired "nat option"
  | RestartTimerFired "nat option"
  | SocketClose
  | CloseTimerFired
  | SocketError
  | ProviderError
  | Activity int
  | ReadyState nat
  | KeepAliveTick int bool
  | Restart
  | HealthCheck int
  | Destroy

fun step :: "ResilientWebSocketProvider \<Rightarrow> event \<Rightarrow> ResilientWebSocketProvider" where
  "step s (HandshakeOk now) = (if isConnecting s then connectSucceeded now s else s)"
| "step s HandshakeFailed = (if isConnecting s then connectFailed s else s)"
| "step s (ReconnectTimerFired ws) =
     (case reconnectTimer s of
        None \<Rightarrow> s
      | Some d \<Rightarrow> (if \<not> isDestroyed s then connect ws (s\<lparr>reconnectTimer := None\<rparr>)
                   else s\<lparr>reconnectTimer := None\<rparr>))"
| "step s (RestartTimerFired ws) =
     (if restartTimers s = 0 then s
      else if \<not> isDestroyed s then connect ws (s\<lparr>restartTimers := restartTimers s - 1\<rparr>)
      else s\<lparr>restartTimers := restartTimers s - 1\<rparr>)"
| "step s SocketClose =
     (let s1 = stopKeepAlive s
      in if \<not> isDestroyed s1 then s1\<lparr>closeTimers := closeTimers s1 + 1\<rparr> else s1)"
| "step s CloseTimerFired =
     (if closeTimers s = 0 then s
      else if \<not> isDestroyed s then scheduleReconnect (s\<lparr>closeTimers := closeTimers s - 1\<rparr>)
      else s\<lparr>closeTimers := closeTimers s - 1\<rparr>)"
| "step s SocketError =
     (let s1 = stopKeepAlive s in if \<not> isDestroyed s1 then scheduleReconnect s1 else s1)"
| "step s ProviderError = (if \<not> isDestroyed s then scheduleReconnect s else s)"
| "step s (Activity now) = s\<lparr>lastActivityTime := now\<rparr>"
| "step s (ReadyState r) =
     (case provider s of Some (Some _) \<Rightarrow> s\<lparr>provider := Some (Some r)\<rparr> | _ \<Rightarrow> s)"
| "step s (KeepAliveTick now pingFails) =
     (if keepAliveTimer s \<and> provider s = Some (Some 1)
      then (if pingFails then scheduleReconnect s
            else if now - lastActivityTime s > 90000 then scheduleReconnect s else s)
      else s)"
| "step s Restart = restart s"
| "step s (HealthCheck now) = (if \<not> isConnected now s then restart s else s)"
| "step s Destroy = destroy s"

text \<open>A run of events, and the number of transitions into Connecting that it makes.\<close>

fun run :: "ResilientWebSocketProvider \<Rightarrow> event list \<Rightarrow> ResilientWebSocketProvider" where
  "run s [] = s"
| "run s (e # es) = run (step s e) es"

fun connectingTransitions :: "ResilientWebSocketProvider \<Rightarrow> event list \<Rightarrow> nat" where
  "connectingTransitions s [] = 0"
| "connectingTransitions s (e # es) =
     (if \<not> isConnecting s \<and> isConnecting (step s e) then 1 else 0)
       + connectingTransitions (step s e) es"

text \<open>The events that call \<^verbatim>\<open>restart\<close>.\<close>

fun restarts :: "event \<Rightarrow> bool" where
  "restarts Restart = True"
| "restarts (HealthCheck _) = True"
| "restarts _ = False"

text \<open>
  A run used below, all of it within the first two minutes of a connection, so that the
  health check has not yet come round: the handshake of the constructor's connection
  attempt fails, and the provider then reports 50 errors in quick succession, each of them
  before the reconnection timer armed at the previous one has fired.
\<close>

definition errorBurst :: "event list" where
  "errorBurst = HandshakeFailed # replicate 50 ProviderError"

section \<open>Strings and keyed collections\<close>

text \<open>\<^verbatim>\<open>String.prototype.toLowerCase\<close> on the ASCII strings the bot handles (hex hashes).\<close>

definition toLowerCase :: "string \<Rightarrow> string" where
  "toLowerCase =
     map (\<lambda>c. if 65 \<le> (of_char c :: nat) \<and> (of_char c :: nat) \<le> 90
              then char_of (of_char c + 32 :: nat) else c)"

text \<open>
  A JavaScript \<^verbatim>\<open>Set\<close> (and the keys of a \<^verbatim>\<open>Map\<close>) iterate in insertion order and hold
  every element once: \<open>setAdd\<close> is \<^verbatim>\<open>Set.prototype.add\<close>.
\<close>

definition setAdd :: "'a \<Rightarrow> 'a list \<Rightarrow> 'a list" where
  "setAdd x xs = (if x \<in> set xs then xs else xs @ [x])"

section \<open>The rate cache\<close>

text \<open>
  The answer of an awaited request: the promise rejects (\<open>FetchThrows\<close>; for the two rate
  APIs this also stands for a body that is not JSON) or resolves with a value.
\<close>

datatype 'a fetched = FetchThrows | Fetched 'a

text \<open>
  The body of the exchange-rate API: whether \<^verbatim>\<open>data.result === 'success'\<close>, and
  \<^verbatim>\<open>data.conversion_rates\<close>, a table from currency code to rate (\<open>None\<close> when the field is
  missing).
\<close>

type_synonym rates = "(string \<times> jsnum) list"

record exchange_response =
  result_success :: bool
  conversion_rates :: "rates option"

text \<open>
  The body of the CriptoYa API, \<^verbatim>\<open>data.cripto.usdc\<close>: \<open>None\<close> when \<^verbatim>\<open>data\<close>, \<^verbatim>\<open>data.cripto\<close>
  or \<^verbatim>\<open>data.cripto.usdc\<close> is missing, else the fields \<^verbatim>\<open>ask\<close> and \<^verbatim>\<open>bid\<close>.
\<close>

record usdc_quote =
  ask :: "jsnum option"
  bid :: "jsnum option"

text \<open>The four module variables of the cache; \<open>None\<close> is \<^verbatim>\<open>null\<close> or \<^verbatim>\<open>undefined\<close>.\<close>

record rate_cache =
  exchangeRatesCache :: "rates option"
  lastRatesFetch :: int
  arsRateCache :: "jsnum option"
  lastARSFetch :: int

definition initialCache :: rate_cache where
  "initialCache =
     \<lparr>exchangeRatesCache = None, lastRatesFetch = 0, arsRateCache = None, lastARSFetch = 0\<rparr>"

definition RATES_CACHE_DURATION :: int where
  "RATES_CACHE_DURATION = 60000"

definition ARS_CACHE_DURATION :: int where
  "ARS_CACHE_DURATION = 60000"

text \<open>
  \<^verbatim>\<open>getExchangeRates\<close>, called at time \<open>t\<close>; \<open>response\<close> is what the API answers if it is
  asked. The result is the value returned (\<open>None\<close> for \<^verbatim>\<open>null\<close> or \<^verbatim>\<open>undefined\<close>), the cache
  afterwards, and the number of outbound requests made.
\<close>

definition getExchangeRates ::
  "int \<Rightarrow> exchange_response fetched \<Rightarrow> rate_cache \<Rightarrow> rates option \<times> rate_cache \<times> nat" where
  "getExchangeRates t response c =
     (if (case exchangeRatesCache c of None \<Rightarrow> False | Some _ \<Rightarrow> True)
         \<and> t - lastRatesFetch c < RATES_CACHE_DURATION
      then (exchangeRatesCache c, c, 0)
      else (case response of
              FetchThrows \<Rightarrow> (None, c, 1)
            | Fetched d \<Rightarrow>
                if result_success d
                then (conversion_rates d,
                      c\<lparr>exchangeRatesCache := conversion_rates d, lastRatesFetch := t\<rparr>, 1)
                else (None, c, 1)))"

text \<open>Truthiness of a value that may be \<^verbatim>\<open>null\<close> or \<^verbatim>\<open>undefined\<close>.\<close>

fun truthyOpt :: "jsnum option \<Rightarrow> bool" where
  "truthyOpt None = False"
| "truthyOpt (Some v) = truthy v"

definition getARSRate ::
  "int \<Rightarrow> usdc_quote option fetched \<Rightarrow> rate_cache \<Rightarrow> jsnum option \<times> rate_cache \<times> nat" where
  "getARSRate t response c =
     (if truthyOpt (arsRateCache c) \<and> t - lastARSFetch c < ARS_CACHE_DURATION
      then (arsRateCache c, c, 0)
      else (case response of
              FetchThrows \<Rightarrow> (None, c, 1)
            | Fetched None \<Rightarrow> (None, c, 1)
            | Fetched (Some q) \<Rightarrow>
                (case (ask q, bid q) of
                   (Some a, Some b) \<Rightarrow>
                     if truthy a \<and> truthy b
                     then (let midPrice = jsDiv (jsAdd a b) (Num 2)
                           in (Some midPrice,
                               c\<lparr>arsRateCache := Some midPrice, lastARSFetch := t\<rparr>, 1))
                     else (None, c, 1)
                 | _ \<Rightarrow> (None, c, 1))))"





section \<open>Subscriber settings and Discord delivery\<close>

text \<open>
  \<^verbatim>\<open>DatabaseManager.getUserThreshold\<close>. \<open>data\<close> is what the query for the subscriber's active
  \<^verbatim>\<open>user_settings\<close> row gives: \<open>None\<close> when there is no row or the read fails, else the
  row's \<^verbatim>\<open>threshold\<close> (\<open>None\<close> when that column is null). The literal \<^verbatim>\<open>0.2\<close> is the
  binary64 value nearest to 1/5.
\<close>

definition getUserThreshold :: "jsnum option option \<Rightarrow> jsnum" where
  "getUserThreshold data =
     (case data of
        Some (Some threshold) \<Rightarrow> if truthy threshold then threshold else fl (1 / 5)
      | _ \<Rightarrow> fl (1 / 5))"

text \<open>
  \<^verbatim>\<open>DatabaseManager.getUsersWithSniper\<close>: the chat ids of the rows the query gives (\<open>None\<close>
  when it fails), deduplicated through a \<^verbatim>\<open>Map\<close> keyed by chat id.
\<close>

definition getUsersWithSniper :: "int list option \<Rightarrow> int list" where
  "getUsersWithSniper data =
     (case data of None \<Rightarrow> [] | Some rows \<Rightarrow> foldl (\<lambda>userMap chat_id. setAdd chat_id userMap) [] rows)"

text \<open>\<^verbatim>\<open>Math.ceil\<close>\<close>

fun jsCeil :: "jsnum \<Rightarrow> jsnum" where
  "jsCeil (Num a) = Num (of_int \<lceil>a\<rceil>)"
| "jsCeil v = v"

text \<open>
  One answer of the Discord webhook to a request: the request fails (\<^verbatim>\<open>fetch\<close> rejects),
  or it is answered with a status and, in the body, possibly a \<^verbatim>\<open>retry_after\<close>.
\<close>

datatype http_reply = NetworkError | Status nat "jsnum option"

text \<open>How an awaited call ends: it returns, it throws, or its promise never settles.\<close>

datatype outcome = Returned | Thrown | NeverSettles

text \<open>
  \<^verbatim>\<open>postToDiscord\<close>. \<open>webhookUrl\<close> tells whether the URL is configured; the list holds the
  webhook's answers to the successive requests, and a request beyond the end of the list is
  never answered. The result is how the call ends, the number of requests made and the
  rate-limit pauses slept, in milliseconds.
\<close>

fun postToDiscord :: "bool \<Rightarrow> http_reply list \<Rightarrow> outcome \<times> nat \<times> jsnum list" where
  "postToDiscord False _ = (Returned, 0, [])"
| "postToDiscord True [] = (NeverSettles, 1, [])"
| "postToDiscord True (NetworkError # _) = (Thrown, 1, [])"
| "postToDiscord True (Status status retry_after # replies) =
     (if status = 429
      then (let retryMs =
                  jsCeil (jsMul (case retry_after of
                                   None \<Rightarrow> Num 1
                                 | Some v \<Rightarrow> if truthy v then v else Num 1)
                                (Num 1000));
                (out, n, sleeps) = postToDiscord True replies
            in (out, Suc n, retryMs # sleeps))
      else (Returned, 1, []))"

section \<open>The sniper check\<close>

definition currencyHashToCode :: "(string \<times> string) list" where
  "currencyHashToCode =
    [
     (''0x4dab77a640748de8588de6834d814a344372b205265984b969f3e97060955bfa'', ''AED''),
     (''0x8fd50654b7dd2dc839f7cab32800ba0c6f7f66e1ccf89b21c09405469c2175ec'', ''ARS''),
     (''0xcb83cbb58eaa5007af6cad99939e4581c1e1b50d65609c30f303983301524ef3'', ''AUD''),
     (''0x221012e06ebf59a20b82e3003cf5d6ee973d9008bdb6e2f604faa89a27235522'', ''CAD''),
     (''0xc9d84274fd58aa177cabff54611546051b74ad658b939babaad6282500300d36'', ''CHF''),
     (''0xfaaa9c7b2f09d6a1b0971574d43ca62c3e40723167c09830ec33f06cec921381'', ''CNY''),
     (''0xd783b199124f01e5d0dde2b7fc01b925e699caea84eae3ca92ed17377f498e97'', ''CZK''),
     (''0x5ce3aa5f4510edaea40373cbe83c091980b5c92179243fe926cb280ff07d403e'', ''DKK''),
     (''0xfff16d60be267153303bbfa66e593fb8d06e24ea5ef24b6acca5224c2ca6b907'', ''EUR''),
     (''0x90832e2dc3221e4d56977c1aa8f6a6706b9ad6542fbbdaac13097d0fa5e42e67'', ''GBP''),
     (''0xa156dad863111eeb529c4b3a2a30ad40e6dcff3b27d8f282f82996e58eee7e7d'', ''HKD''),
     (''0x7766ee347dd7c4a6d5a55342d89e8848774567bcf7a5f59c3e82025dbde3babb'', ''HUF''),
     (''0xc681c4652bae8bd4b59bec1cdb90f868d93cc9896af9862b196843f54bf254b3'', ''IDR''),
     (''0x313eda7ae1b79890307d32a78ed869290aeb24cc0e8605157d7e7f5a69fea425'', ''ILS''),
     (''0xaad766fbc07fb357bed9fd8b03b935f2f71fe29fc48f08274bc2a01d7f642afc'', ''INR''),
     (''0xfe13aafd831cb225dfce3f6431b34b5b17426b6bff4fccabe4bbe0fe4adc0452'', ''JPY''),
     (''0x589be49821419c9c2fbb26087748bf3420a5c13b45349828f5cac24c58bbaa7b'', ''KES''),
     (''0xa94b0702860cb929d0ee0c60504dd565775a058bf1d2a2df074c1db0a66ad582'', ''MXN''),
     (''0xf20379023279e1d79243d2c491be8632c07cfb116be9d8194013fb4739461b84'', ''MYR''),
     (''0x8fb505ed75d9d38475c70bac2c3ea62d45335173a71b2e4936bd9f05bf0ddfea'', ''NOK''),
     (''0xdbd9d34f382e9f6ae078447a655e0816927c7c3edec70bd107de1d34cb15172e'', ''NZD''),
     (''0xe6c11ead4ee5ff5174861adb55f3e8fb2841cca69bf2612a222d3e8317b6ae06'', ''PHP''),
     (''0x9a788fb083188ba1dfb938605bc4ce3579d2e085989490aca8f73b23214b7c1d'', ''PLN''),
     (''0x2dd272ddce846149d92496b4c3e677504aec8d5e6aab5908b25c9fe0a797e25f'', ''RON''),
     (''0xf998cbeba8b7a7e91d4c469e5fb370cdfa16bd50aea760435dc346008d78ed1f'', ''SAR''),
     (''0x8895743a31faedaa74150e89d06d281990a1909688b82906f0eb858b37f82190'', ''SEK''),
     (''0xc241cc1f9752d2d53d1ab67189223a3f330e48b75f73ebf86f50b2c78fe8df88'', ''SGD''),
     (''0x326a6608c2a353275bd8d64db53a9d772c1d9a5bc8bfd19dfc8242274d1e9dd4'', ''THB''),
     (''0x128d6c262d1afe2351c6e93ceea68e00992708cfcbc0688408b9a23c0c543db2'', ''TRY''),
     (''0xc4ae21aac0c6549d71dd96035b7e0bdb6c79ebdba8891b666115bc976d16a29e'', ''USD''),
     (''0xe85548baf0a6732cfcc7fc016ce4fd35ce0a1877057cfec6e166af4f106a3728'', ''VND''),
     (''0x53611f0b3535a2cfc4b8deb57fa961ca36c7b2c272dfe4cb239a29c48e549361'', ''ZAR'')]"

definition ZKP2P_GROUP_ID :: int where
  "ZKP2P_GROUP_ID = - 1001928949520"

definition ZKP2P_SNIPER_TOPIC_ID :: int where
  "ZKP2P_SNIPER_TOPIC_ID = 5671"

text \<open>
  What \<^verbatim>\<open>checkSniperOpportunity\<close> finds outside: the clock, the two rate APIs, the rows of
  the \<^verbatim>\<open>user_snipers\<close> query for the currency and platform of the deposit, each
  subscriber's \<^verbatim>\<open>user_settings\<close> row, whether the sniper webhook is configured, and the
  webhook's answers to the requests made for each subscriber's alert.
\<close>

record sniper_env =
  dateNow :: int
  exchangeApi :: "exchange_response fetched"
  criptoYaApi :: "usdc_quote option fetched"
  sniperRows :: "int list option"
  userSettings :: "int \<Rightarrow> jsnum option option"
  sniperWebhook :: bool
  sniperDiscord :: "int \<Rightarrow> http_reply list"

text \<open>
  The alert sent to a subscriber by \<^verbatim>\<open>bot.sendMessage\<close>: the recipient, the deposit, the
  currency, the two rates, the difference in percent and the topic the message goes to
  (set for the group only). The text of the message is not modelled.
\<close>

record alert =
  alertChat :: int
  alertDeposit :: int
  alertCurrency :: string
  alertDepositRate :: jsnum
  alertMarketRate :: jsnum
  alertPercentageDiff :: jsnum
  alertThread :: "int option"

text \<open>What the sniper check does, in order.\<close>

datatype effect =
    ThresholdRead int
  | SniperAlertLogged int
  | DiscordPost int nat "jsnum list"
  | TelegramMessage alert

text \<open>
  The loop over the interested users. For each one the threshold is read; if the
  difference reaches it, the alert is logged, mirrored to Discord (awaited) and then sent to
  the subscriber (not awaited). A Discord call that throws or never settles ends the loop.
\<close>

fun alertLoop ::
  "sniper_env \<Rightarrow> (int \<Rightarrow> alert) \<Rightarrow> jsnum \<Rightarrow> int list \<Rightarrow> effect list \<times> outcome" where
  "alertLoop env message percentageDiff [] = ([], Returned)"
| "alertLoop env message percentageDiff (chatId # chats) =
     (let userThreshold = getUserThreshold (userSettings env chatId)
      in if jsGe percentageDiff userThreshold
         then (case postToDiscord (sniperWebhook env) (sniperDiscord env chatId) of
                 (Returned, n, sleeps) \<Rightarrow>
                   (let (effects, out) = alertLoop env message percentageDiff chats
                    in (ThresholdRead chatId # SniperAlertLogged chatId
                          # DiscordPost chatId n sleeps # TelegramMessage (message chatId)
                          # effects, out))
               | (out, n, sleeps) \<Rightarrow>
                   ([ThresholdRead chatId, SniperAlertLogged chatId, DiscordPost chatId n sleeps],
                    out))
         else (let (effects, out) = alertLoop env message percentageDiff chats
               in (ThresholdRead chatId # effects, out)))"

text \<open>
  The market rate of a currency: CriptoYa for ARS, the constant 1 for USD, the
  exchange-rate table for the others; \<open>None\<close> when the check returns for want of a rate.
\<close>

definition marketRateOf ::
  "sniper_env \<Rightarrow> string \<Rightarrow> rate_cache \<Rightarrow> jsnum option \<times> rate_cache" where
  "marketRateOf env currencyCode c =
     (if currencyCode = ''ARS''
      then (case getARSRate (dateNow env) (criptoYaApi env) c of
              (r, c', _) \<Rightarrow> (if truthyOpt r then r else None, c'))
      else if currencyCode = ''USD'' then (Some (Num 1), c)
      else (case getExchangeRates (dateNow env) (exchangeApi env) c of
              (None, c', _) \<Rightarrow> (None, c')
            | (Some exchangeRates, c', _) \<Rightarrow>
                (if truthyOpt (map_of exchangeRates currencyCode)
                 then map_of exchangeRates currencyCode else None, c')))"

definition depositRateOf :: "int \<Rightarrow> jsnum" where
  "depositRateOf conversionRate = jsDiv (Number_of conversionRate) (Num (10 ^ 18))"

definition percentageDiffOf :: "jsnum \<Rightarrow> jsnum \<Rightarrow> jsnum" where
  "percentageDiffOf marketRate depositRate =
     jsMul (jsDiv (jsSub marketRate depositRate) marketRate) (Num 100)"

text \<open>The users of the sniper query, with the group appended unless it is among them.\<close>

definition interestedUsersOf :: "sniper_env \<Rightarrow> int list" where
  "interestedUsersOf env =
     (let interestedUsers = getUsersWithSniper (sniperRows env)
      in if ZKP2P_GROUP_ID \<in> set interestedUsers then interestedUsers
         else interestedUsers @ [ZKP2P_GROUP_ID])"

definition sniperMessage :: "int \<Rightarrow> string \<Rightarrow> jsnum \<Rightarrow> jsnum \<Rightarrow> jsnum \<Rightarrow> int \<Rightarrow> alert" where
  "sniperMessage depositId currencyCode depositRate marketRate percentageDiff chatId =
     \<lparr>alertChat = chatId, alertDeposit = depositId, alertCurrency = currencyCode,
      alertDepositRate = depositRate, alertMarketRate = marketRate,
      alertPercentageDiff = percentageDiff,
      alertThread = (if chatId = ZKP2P_GROUP_ID then Some ZKP2P_SNIPER_TOPIC_ID else None)\<rparr>"

text \<open>
  \<^verbatim>\<open>checkSniperOpportunity\<close>: what it does, how it ends, and the rate cache afterwards. The
  platform name, which only selects the rows of the sniper query and appears in the text of
  the message, is not a parameter here.
\<close>

definition checkSniperOpportunity ::
  "sniper_env \<Rightarrow> int \<Rightarrow> string \<Rightarrow> int \<Rightarrow> rate_cache \<Rightarrow> effect list \<times> outcome \<times> rate_cache" where
  "checkSniperOpportunity env depositId currencyHash conversionRate c =
     (case map_of currencyHashToCode (toLowerCase currencyHash) of
        None \<Rightarrow> ([], Returned, c)
      | Some currencyCode \<Rightarrow>
          (case marketRateOf env currencyCode c of
             (None, c') \<Rightarrow> ([], Returned, c')
           | (Some marketRate, c') \<Rightarrow>
               (let depositRate = depositRateOf conversionRate;
                    percentageDiff = percentageDiffOf marketRate depositRate;
                    (effects, out) =
                      alertLoop env
                        (sniperMessage depositId currencyCode depositRate marketRate percentageDiff)
                        percentageDiff (interestedUsersOf env)
                in (effects, out, c'))))"

text \<open>The alerts sent to one subscriber.\<close>

definition alertsTo :: "int \<Rightarrow> effect list \<Rightarrow> alert list" where
  "alertsTo chatId effects =
     concat (map (\<lambda>e. case e of TelegramMessage a \<Rightarrow> (if alertChat a = chatId then [a] else [])
                             | _ \<Rightarrow> []) effects)"

text \<open>The subscribers whose threshold was read.\<close>

definition evaluated :: "effect list \<Rightarrow> int list" where
  "evaluated effects =
     concat (map (\<lambda>e. case e of ThresholdRead chatId \<Rightarrow> [chatId] | _ \<Rightarrow> []) effects)"

section \<open>Transaction reconciliation\<close>

text \<open>\<^verbatim>\<open>Map.prototype.set\<close> and \<^verbatim>\<open>delete\<close> on a map kept as a list of entries; \<open>map_of\<close> is \<^verbatim>\<open>get\<close>.\<close>

fun mapSet :: "'k \<Rightarrow> 'v \<Rightarrow> ('k \<times> 'v) list \<Rightarrow> ('k \<times> 'v) list" where
  "mapSet k v [] = [(k, v)]"
| "mapSet k v ((k', v') # m) = (if k' = k then (k, v) # m else (k', v') # mapSet k v m)"

definition mapDelete :: "'k \<Rightarrow> ('k \<times> 'v) list \<Rightarrow> ('k \<times> 'v) list" where
  "mapDelete k m = filter (\<lambda>(k', v). k' \<noteq> k) m"

text \<open>
  The decoded logs that are batched, with the arguments that decide what happens; the other
  arguments (owner, recipient, amounts, fees) only appear in the text of the messages.
\<close>

datatype decoded =
    EscrowIntentFulfilled string nat string
  | EscrowIntentPruned string nat
  | OrchestratorIntentFulfilled string
  | OrchestratorIntentPruned string

record log =
  parsed :: decoded
  transactionHash :: string
  logBlockNumber :: nat

text \<open>
  The object stored in \<^verbatim>\<open>rawIntents\<close>: \<^verbatim>\<open>eventType\<close> (\<open>None\<close> when the property is absent),
  \<^verbatim>\<open>type\<close>, \<^verbatim>\<open>intentHash\<close>, and \<^verbatim>\<open>depositId\<close> and \<^verbatim>\<open>verifier\<close> where the handler stores them.
\<close>

record rawIntent =
  rawEventType :: "string option"
  rawType :: string
  rawIntentHash :: string
  rawDepositId :: "nat option"
  rawVerifier :: "string option"

record txData =
  fulfilled :: "string list"
  pruned :: "string list"
  blockNumber :: nat
  rawIntents :: "(string \<times> rawIntent) list"

text \<open>
  The module variables: the pending transactions, the transactions whose timer is armed,
  the keys of \<^verbatim>\<open>intentDetails\<close> (its values only feed the text of messages) and
  \<^verbatim>\<open>orchestratorIntentDetails\<close> with the deposit id of each entry.
\<close>

record bot_state =
  pendingTransactions :: "(string \<times> txData) list"
  processingScheduled :: "string list"
  intentDetails :: "string list"
  orchestratorIntentDetails :: "(string \<times> nat) list"

definition scheduleTransactionProcessing :: "string \<Rightarrow> bot_state \<Rightarrow> bot_state" where
  "scheduleTransactionProcessing txHash st =
     (if txHash \<in> set (processingScheduled st) then st
      else st\<lparr>processingScheduled := setAdd txHash (processingScheduled st)\<rparr>)"

text \<open>
  The branches \<^verbatim>\<open>IntentFulfilled\<close> and \<^verbatim>\<open>IntentPruned\<close> of \<^verbatim>\<open>handleContractEvent\<close> and of
  \<^verbatim>\<open>handleOrchestratorEvent\<close>: what each adds to the entry of its transaction.
\<close>

fun record_intent :: "decoded \<Rightarrow> txData \<Rightarrow> txData" where
  "record_intent (EscrowIntentFulfilled intentHash depositId verifier) d =
     d\<lparr>fulfilled := setAdd (toLowerCase intentHash) (fulfilled d),
       rawIntents := mapSet (toLowerCase intentHash)
         \<lparr>rawEventType = None, rawType = ''fulfilled'', rawIntentHash = intentHash,
          rawDepositId = Some depositId, rawVerifier = Some verifier\<rparr> (rawIntents d)\<rparr>"
| "record_intent (EscrowIntentPruned intentHash depositId) d =
     d\<lparr>pruned := setAdd (toLowerCase intentHash) (pruned d),
       rawIntents := mapSet (toLowerCase intentHash)
         \<lparr>rawEventType = None, rawType = ''pruned'', rawIntentHash = intentHash,
          rawDepositId = Some depositId, rawVerifier = None\<rparr> (rawIntents d)\<rparr>"
| "record_intent (OrchestratorIntentFulfilled intentHash) d =
     d\<lparr>fulfilled := setAdd (toLowerCase intentHash) (fulfilled d),
       rawIntents := mapSet (toLowerCase intentHash)
         \<lparr>rawEventType = Some ''orchestrator'', rawType = ''fulfilled'',
          rawIntentHash = intentHash, rawDepositId = None, rawVerifier = None\<rparr> (rawIntents d)\<rparr>"
| "record_intent (OrchestratorIntentPruned intentHash) d =
     d\<lparr>pruned := setAdd (toLowerCase intentHash) (pruned d),
       rawIntents := mapSet (toLowerCase intentHash)
         \<lparr>rawEventType = Some ''orchestrator'', rawType = ''pruned'',
          rawIntentHash = intentHash, rawDepositId = None, rawVerifier = None\<rparr> (rawIntents d)\<rparr>"

definition handleIntentEvent :: "log \<Rightarrow> bot_state \<Rightarrow> bot_state" where
  "handleIntentEvent l st =
     (let txHash = transactionHash l;
          d = (case map_of (pendingTransactions st) txHash of
                 None \<Rightarrow> \<lparr>fulfilled = [], pruned = [], blockNumber = logBlockNumber l,
                           rawIntents = []\<rparr>
               | Some d \<Rightarrow> d)
      in scheduleTransactionProcessing txHash
           (st\<lparr>pendingTransactions :=
                 mapSet txHash (record_intent (parsed l) d) (pendingTransactions st)\<rparr>))"

text \<open>
  What the notifiers find outside: the subscribers interested in a deposit, whether the
  orders webhook is configured, and its answers to the requests made for an intent.
\<close>

record notify_env =
  usersInterestedInDeposit :: "nat option \<Rightarrow> int list"
  ordersWebhook :: bool
  ordersDiscord :: "string \<Rightarrow> http_reply list"

datatype notice_kind = Fulfilled | Cancelled

text \<open>
  What a notifier emits: the post to the Discord webhook, and for every interested
  subscriber the update of the deposit's status and the message.
\<close>

datatype notification =
    OrdersDiscordPost notice_kind string nat "jsnum list"
  | DepositStatusUpdate int "nat option" notice_kind string
  | TelegramNotice int notice_kind "nat option" string

text \<open>
  The common end of the four notifiers: nothing if nobody is interested; else the awaited
  post to Discord and, once it has returned, the loop over the subscribers.
\<close>

definition notifyUsers ::
  "notify_env \<Rightarrow> notice_kind \<Rightarrow> nat option \<Rightarrow> string \<Rightarrow> notification list \<times> outcome" where
  "notifyUsers env kind depositId intentHash =
     (let interestedUsers = usersInterestedInDeposit env depositId
      in if interestedUsers = [] then ([], Returned)
         else (case postToDiscord (ordersWebhook env) (ordersDiscord env intentHash) of
                 (Returned, n, sleeps) \<Rightarrow>
                   (OrdersDiscordPost kind intentHash n sleeps
                      # concat (map (\<lambda>chatId. [DepositStatusUpdate chatId depositId kind intentHash,
                                              TelegramNotice chatId kind depositId intentHash])
                                    interestedUsers),
                    Returned)
               | (out, n, sleeps) \<Rightarrow> ([OrdersDiscordPost kind intentHash n sleeps], out)))"

text \<open>
  \<^verbatim>\<open>sendFulfilledNotification\<close> starts with \<^verbatim>\<open>getPlatformName(verifier)\<close>, which throws a
  \<^verbatim>\<open>TypeError\<close> when the stored object has no \<^verbatim>\<open>verifier\<close>.
\<close>

definition sendFulfilledNotification ::
  "notify_env \<Rightarrow> rawIntent \<Rightarrow> bot_state \<Rightarrow> notification list \<times> outcome \<times> bot_state" where
  "sendFulfilledNotification env raw st =
     (case rawVerifier raw of
        None \<Rightarrow> ([], Thrown, st)
      | Some verifier \<Rightarrow>
          (let st1 = st\<lparr>intentDetails :=
                        removeAll (toLowerCase (rawIntentHash raw)) (intentDetails st)\<rparr>
           in case notifyUsers env Fulfilled (rawDepositId raw) (rawIntentHash raw) of
                (ns, out) \<Rightarrow> (ns, out, st1)))"

definition sendPrunedNotification ::
  "notify_env \<Rightarrow> rawIntent \<Rightarrow> bot_state \<Rightarrow> notification list \<times> outcome \<times> bot_state" where
  "sendPrunedNotification env raw st =
     (case notifyUsers env Cancelled (rawDepositId raw) (rawIntentHash raw) of
        (ns, out) \<Rightarrow> (ns, out, st))"

text \<open>
  The two notifiers of the orchestrator look the intent up in
  \<^verbatim>\<open>orchestratorIntentDetails\<close> and return at once when it is not there. The clean-up at
  their end is reached only when subscribers were notified.
\<close>

definition orchestratorNotification ::
  "notify_env \<Rightarrow> notice_kind \<Rightarrow> rawIntent \<Rightarrow> bot_state \<Rightarrow> notification list \<times> outcome \<times> bot_state" where
  "orchestratorNotification env kind raw st =
     (let intentHashLower = toLowerCase (rawIntentHash raw)
      in case map_of (orchestratorIntentDetails st) intentHashLower of
           None \<Rightarrow> ([], Returned, st)
         | Some depositId \<Rightarrow>
             if usersInterestedInDeposit env (Some depositId) = [] then ([], Returned, st)
             else (case notifyUsers env kind (Some depositId) (rawIntentHash raw) of
                     (ns, Returned) \<Rightarrow>
                       (ns, Returned,
                        st\<lparr>orchestratorIntentDetails :=
                              mapDelete intentHashLower (orchestratorIntentDetails st),
                           intentDetails := removeAll intentHashLower (intentDetails st)\<rparr>)
                   | (ns, out) \<Rightarrow> (ns, out, st)))"

definition sendOrchestratorFulfilledNotification ::
  "notify_env \<Rightarrow> rawIntent \<Rightarrow> bot_state \<Rightarrow> notification list \<times> outcome \<times> bot_state" where
  "sendOrchestratorFulfilledNotification env raw st = orchestratorNotification env Fulfilled raw st"

definition sendOrchestratorPrunedNotification ::
  "notify_env \<Rightarrow> rawIntent \<Rightarrow> bot_state \<Rightarrow> notification list \<times> outcome \<times> bot_state" where
  "sendOrchestratorPrunedNotification env raw st = orchestratorNotification env Cancelled raw st"

text \<open>
  One of the two loops of \<^verbatim>\<open>processCompletedTransaction\<close>, over the pruned intents
  (\<open>kind = Cancelled\<close>, skipping those that are also fulfilled) or over the fulfilled ones.
  The result lists the calls made to a notifier, what they emitted, how the loop ended and
  the state. A call that throws or never settles ends the loop.
\<close>

fun processIntents ::
  "notify_env \<Rightarrow> notice_kind \<Rightarrow> txData \<Rightarrow> string list \<Rightarrow> bot_state
     \<Rightarrow> (notice_kind \<times> string) list \<times> notification list \<times> outcome \<times> bot_state" where
  "processIntents env kind d [] st = ([], [], Returned, st)"
| "processIntents env kind d (intentHash # hashes) st =
     (if kind = Cancelled \<and> intentHash \<in> set (fulfilled d)
      then processIntents env kind d hashes st
      else (case map_of (rawIntents d) intentHash of
              None \<Rightarrow> processIntents env kind d hashes st
            | Some raw \<Rightarrow>
                (case (if rawEventType raw = Some ''orchestrator''
                       then (if kind = Cancelled
                             then sendOrchestratorPrunedNotification env raw st
                             else sendOrchestratorFulfilledNotification env raw st)
                       else (if kind = Cancelled
                             then sendPrunedNotification env raw st
                             else sendFulfilledNotification env raw st)) of
                   (ns, Returned, st') \<Rightarrow>
                     (case processIntents env kind d hashes st' of
                        (calls, ns', out, st'') \<Rightarrow> ((kind, intentHash) # calls, ns @ ns', out, st''))
                 | (ns, out, st') \<Rightarrow> ([(kind, intentHash)], ns, out, st'))))"

definition processCompletedTransaction ::
  "notify_env \<Rightarrow> string \<Rightarrow> bot_state
     \<Rightarrow> (notice_kind \<times> string) list \<times> notification list \<times> outcome \<times> bot_state" where
  "processCompletedTransaction env txHash st =
     (case map_of (pendingTransactions st) txHash of
        None \<Rightarrow> ([], [], Returned, st)
      | Some d \<Rightarrow>
          (case processIntents env Cancelled d (pruned d) st of
             (calls, ns, Returned, st1) \<Rightarrow>
               (case processIntents env Fulfilled d (fulfilled d) st1 of
                  (calls', ns', Returned, st2) \<Rightarrow>
                    (calls @ calls', ns @ ns', Returned,
                     st2\<lparr>pendingTransactions := mapDelete txHash (pendingTransactions st2)\<rparr>)
                | (calls', ns', out, st2) \<Rightarrow> (calls @ calls', ns @ ns', out, st2))
           | (calls, ns, out, st1) \<Rightarrow> (calls, ns, out, st1)))"

text \<open>
  The callback of the 10 s timer armed by \<^verbatim>\<open>scheduleTransactionProcessing\<close>: the
  transaction is taken off \<^verbatim>\<open>processingScheduled\<close> once the processing has returned.
\<close>

definition transactionTimerFired ::
  "notify_env \<Rightarrow> string \<Rightarrow> bot_state
     \<Rightarrow> (notice_kind \<times> string) list \<times> notification list \<times> outcome \<times> bot_state" where
  "transactionTimerFired env txHash st =
     (case processCompletedTransaction env txHash st of
        (calls, ns, Returned, st') \<Rightarrow>
          (calls, ns, Returned, st'\<lparr>processingScheduled := removeAll txHash (processingScheduled st')\<rparr>)
      | r \<Rightarrow> r)"

text \<open>The batching of a sequence of logs, in the order the handlers receive them.\<close>

fun recordAll :: "decoded list \<Rightarrow> txData \<Rightarrow> txData" where
  "recordAll [] d = d"
| "recordAll (e # es) d = recordAll es (record_intent e d)"

fun handleAll :: "log list \<Rightarrow> bot_state \<Rightarrow> bot_state" where
  "handleAll [] st = st"
| "handleAll (l # ls) st = handleAll ls (handleIntentEvent l st)"

definition initialState :: bot_state where
  "initialState =
     \<lparr>pendingTransactions = [], processingScheduled = [], intentDetails = [],
      orchestratorIntentDetails = []\<rparr>"

text \<open>The intent of a log, as the key under which it is batched, and its kind.\<close>

fun intentOf :: "decoded \<Rightarrow> string" where
  "intentOf (EscrowIntentFulfilled intentHash depositId verifier) = toLowerCase intentHash"
| "intentOf (EscrowIntentPruned intentHash depositId) = toLowerCase intentHash"
| "intentOf (OrchestratorIntentFulfilled intentHash) = toLowerCase intentHash"
| "intentOf (OrchestratorIntentPruned intentHash) = toLowerCase intentHash"


fun isOrchestrator :: "decoded \<Rightarrow> bool" where
  "isOrchestrator (OrchestratorIntentFulfilled intentHash) = True"
| "isOrchestrator (OrchestratorIntentPruned intentHash) = True"
| "isOrchestrator _ = False"














text \<open>
  Situations used below, all in transaction \<open>0xt1\<close>. One subscriber, 5, is interested in
  every deposit. In \<open>quietEnv\<close> the orders webhook is not configured; in
  \<open>failingOrdersEnv\<close> it is, and the request made for intent \<open>0xa1\<close> fails.
\<close>

definition quietEnv :: notify_env where
  "quietEnv =
     \<lparr>usersInterestedInDeposit = (\<lambda>depositId. [5]), ordersWebhook = False,
      ordersDiscord = (\<lambda>intentHash. [])\<rparr>"




definition reversedLogs :: "log list" where
  "reversedLogs =
     [\<lparr>parsed = EscrowIntentFulfilled ''0xa1'' 9 ''0xv'', transactionHash = ''0xt1'',
       logBlockNumber = 100\<rparr>,
      \<lparr>parsed = EscrowIntentPruned ''0xa1'' 9, transactionHash = ''0xt1'', logBlockNumber = 100\<rparr>]"

definition orchestratorLogs :: "log list" where
  "orchestratorLogs =
     [\<lparr>parsed = OrchestratorIntentFulfilled ''0xc3'', transactionHash = ''0xt1'',
       logBlockNumber = 100\<rparr>,
      \<lparr>parsed = OrchestratorIntentPruned ''0xd4'', transactionHash = ''0xt1'',
       logBlockNumber = 100\<rparr>]"

text \<open>
  A situation used below: a USD deposit; the sniper query gives subscriber 7, whose stored
  threshold is 5; the group has no settings row; the webhook is configured and answers
  every request with status 204. In \<open>strictEnv\<close> the stored threshold of subscriber 7 is
  5.01 instead. In \<open>failingDiscordEnv\<close> the request made for subscriber 7 fails, and in
  \<open>slowDiscordEnv\<close> it is answered with a rate limit of two seconds and the retry is
  never answered.
\<close>

definition usdHash :: string where
  "usdHash = ''0xc4ae21aac0c6549d71dd96035b7e0bdb6c79ebdba8891b666115bc976d16a29e''"


definition exampleEnv :: sniper_env where
  "exampleEnv =
     \<lparr>dateNow = 1000000, exchangeApi = FetchThrows, criptoYaApi = FetchThrows,
      sniperRows = Some [7],
      userSettings = (\<lambda>chatId. if chatId = 7 then Some (Some (Num 5)) else None),
      sniperWebhook = True,
      sniperDiscord = (\<lambda>chatId. [Status 204 None])\<rparr>"

definition strictEnv :: sniper_env where
  "strictEnv =
     exampleEnv\<lparr>userSettings :=
       (\<lambda>chatId. if chatId = 7 then Some (Some (fl (501 / 100))) else None)\<rparr>"

definition slowDiscordEnv :: sniper_env where
  "slowDiscordEnv =
     exampleEnv\<lparr>sniperDiscord :=
       (\<lambda>chatId. if chatId = 7 then [Status 429 (Some (Num 2))] else [Status 204 None])\<rparr>"

definition failingDiscordEnv :: sniper_env where
  "failingDiscordEnv =
     exampleEnv\<lparr>sniperDiscord := (\<lambda>chatId. if chatId = 7 then [NetworkError] else [Status 204 None])\<rparr>"

chapter \<open>Theorems\<close>

section \<open>Rounding\<close>

lemma ilog2_bounds:
  "1 \<le> n \<Longrightarrow> 0 \<le> ilog2 n \<and> 2 ^ nat (ilog2 n) \<le> n \<and> n < 2 * 2 ^ nat (ilog2 n)"
proof (induction n rule: ilog2.induct)
  case (1 n)
  show ?case
  proof (cases "n < 2")
    case True
    with "1.prems" have "n = 1" by simp
    then show ?thesis by (simp add: ilog2.simps)
  next
    case False
    then have h: "1 \<le> n div 2" by simp
    from "1.IH" [OF False h] have ih: "0 \<le> ilog2 (n div 2)"
      "2 ^ nat (ilog2 (n div 2)) \<le> n div 2" "n div 2 < 2 * 2 ^ nat (ilog2 (n div 2))"
      by simp_all
    have eq: "ilog2 n = 1 + ilog2 (n div 2)" using False by (subst ilog2.simps) simp
    have nat_eq: "nat (ilog2 n) = Suc (nat (ilog2 (n div 2)))" using eq ih(1) by simp
    have d: "2 * (n div 2) \<le> n" "n < 2 * (n div 2) + 2" by presburger+
    define m :: int where "m = 2 ^ nat (ilog2 (n div 2))"
    have "2 * m \<le> n" "n < 2 * (2 * m)" using ih(2,3) d unfolding m_def by linarith+
    then show ?thesis using ih(1) eq nat_eq by (simp add: m_def)
  qed
qed

lemma pow2_powi: "pow2 k = 2 powi k"
  by (simp add: pow2_def power_int_def inverse_eq_divide power_one_over)

lemma pow2_pos: "0 < pow2 k"
  by (simp add: pow2_powi)

lemma binade_lower:
  assumes "x \<noteq> 0"
  shows "pow2 (binade x) \<le> \<bar>x\<bar>"
proof -
  obtain p q where pq: "quotient_of \<bar>x\<bar> = (p, q)" by (cases "quotient_of \<bar>x\<bar>")
  have q: "0 < q" using pq quotient_of_denom_pos by blast
  have x: "\<bar>x\<bar> = of_int p / of_int q" using pq quotient_of_div by blast
  have "0 < \<bar>x\<bar>" using assms by simp
  then have "0 < of_int p / (of_int q :: rat)" using x by simp
  then have p: "0 < p" using q by (simp add: zero_less_divide_iff)
  let ?a = "ilog2 p" and ?b = "ilog2 q"
  from ilog2_bounds [of p] p have a: "0 \<le> ?a" "2 ^ nat ?a \<le> p" by simp_all
  from ilog2_bounds [of q] q have b: "0 \<le> ?b" "q < 2 * 2 ^ nat ?b" by simp_all
  have "pow2 (?a - ?b - 1) \<le> \<bar>x\<bar>"
  proof -
    have pa: "pow2 ?a = 2 ^ nat ?a" using a(1) by (simp add: pow2_def)
    have pb: "pow2 ?b = 2 ^ nat ?b" using b(1) by (simp add: pow2_def)
    have "pow2 (?a - ?b - 1) = pow2 ?a / (2 * pow2 ?b)"
      by (simp add: pow2_powi power_int_diff)
    also have "\<dots> = 2 ^ nat ?a / (2 * 2 ^ nat ?b)"
      by (simp only: pa pb)
    also have "\<dots> \<le> of_int p / of_int q"
    proof -
      have "(of_int (2 ^ nat ?a) :: rat) \<le> of_int p" using a(2) by (simp only: of_int_le_iff)
      then have 1: "(2::rat) ^ nat ?a \<le> of_int p" by simp
      have "(of_int q :: rat) \<le> of_int (2 * 2 ^ nat ?b)" using b(2) by (simp only: of_int_le_iff)
      then have 2: "(of_int q :: rat) \<le> 2 * 2 ^ nat ?b" by simp
      have 3: "(0::rat) < of_int q" using q by simp
      show ?thesis using 1 2 3 p by (intro frac_le) auto
    qed
    finally show ?thesis using x by simp
  qed
  then show ?thesis
    using pq by (auto simp: binade_def Let_def)
qed

lemma roundHalfEven_lower: "m - 1 / 2 \<le> of_int (roundHalfEven m)"
proof -
  have "m - of_int \<lfloor>m\<rfloor> < 1" "0 \<le> m - of_int \<lfloor>m\<rfloor>" by linarith+
  then show ?thesis
    by (auto simp: roundHalfEven_def Let_def)
qed

lemma ulpOf_le:
  assumes "1 \<le> x"
  shows "ulpOf x \<le> x / 2 ^ 52"
proof -
  have x0: "x \<noteq> 0" "\<bar>x\<bar> = x" using assms by simp_all
  have "pow2 (binade x) \<le> x" using binade_lower [OF x0(1)] x0(2) by simp
  moreover have "pow2 (- 1022) \<le> x"
  proof -
    have "pow2 (- 1022) \<le> 1" by (simp add: pow2_def)
    then show ?thesis using assms by linarith
  qed
  ultimately have "pow2 (max (binade x) (- 1022)) \<le> x" by (simp add: max_def)
  moreover have "ulpOf x = pow2 (max (binade x) (- 1022)) / 2 ^ 52"
    by (simp add: ulpOf_def pow2_powi power_int_diff)
  ultimately show ?thesis by (simp add: divide_right_mono)
qed

lemma fl_lower:
  assumes "1 \<le> x"
  shows "fl x = PosInf \<or> (\<exists>y. fl x = Num y \<and> x - x / 2 ^ 53 \<le> y)"
proof (cases "overflows x")
  case True
  then show ?thesis using assms by (simp add: fl_def)
next
  case False
  have u: "0 < ulpOf x" by (simp add: ulpOf_def pow2_pos)
  have "x / ulpOf x - 1 / 2 \<le> of_int (significand x)"
    unfolding significand_def by (rule roundHalfEven_lower)
  then have "(x / ulpOf x - 1 / 2) * ulpOf x \<le> of_int (significand x) * ulpOf x"
    using u by (simp add: mult_right_mono)
  moreover have "(x / ulpOf x - 1 / 2) * ulpOf x = x - ulpOf x / 2"
    using u by (simp add: field_simps)
  ultimately have "x - ulpOf x / 2 \<le> of_int (significand x) * ulpOf x"
    by simp
  moreover have "ulpOf x / 2 \<le> x / 2 ^ 53" using ulpOf_le [OF assms] by simp
  ultimately have "x - x / 2 ^ 53 \<le> of_int (significand x) * ulpOf x" by linarith
  then show ?thesis using False assms by (simp add: fl_def)
qed

lemma delay_capped:
  assumes "9 \<le> n"
  shows "jsMin (jsMul (Num 1000) (jsPow (Num (3 / 2)) n)) (Num 30000) = Num 30000"
proof -
  obtain k where n: "n = Suc k" using assms by (cases n) auto
  have "(3 / 2 :: rat) ^ 9 \<le> (3 / 2) ^ n" using assms by (intro power_increasing) auto
  then have big: "(38 :: rat) \<le> (3 / 2) ^ n" by (simp add: power_def) 
  have pw: "jsPow (Num (3 / 2)) n = fl ((3 / 2) ^ n)" by (simp add: n)
  from big have "1 \<le> (3 / 2 :: rat) ^ n" by linarith
  from fl_lower [OF this] consider "fl ((3 / 2) ^ n) = PosInf"
    | y where "fl ((3 / 2) ^ n) = Num y" "(3 / 2) ^ n - (3 / 2) ^ n / 2 ^ 53 \<le> y" by blast
  then show ?thesis
  proof cases
    case 1
    then show ?thesis by (simp add: pw jsMin_def infOfSign_def)
  next
    case 2
    have "(3 / 2) ^ n / 2 ^ 53 \<le> (3 / 2 :: rat) ^ n / 38"
      by (intro divide_left_mono) auto
    then have y: "37 \<le> y" using 2(2) big by linarith
    then have "1 \<le> 1000 * y" by linarith
    from fl_lower [OF this] consider "fl (1000 * y) = PosInf"
      | z where "fl (1000 * y) = Num z" "1000 * y - 1000 * y / 2 ^ 53 \<le> z" by blast
    then show ?thesis
    proof cases
      case 1
      then show ?thesis by (simp add: pw 2(1) jsMin_def)
    next
      case (2 z)
      have "1000 * y / 2 ^ 53 \<le> 1000 * y / 38"
        using y by (intro divide_left_mono) auto
      then have "30000 \<le> z" using 2(2) y by linarith
      then show ?thesis using 2(1) \<open>fl ((3 / 2) ^ n) = Num y\<close> by (auto simp: pw jsMin_def)
    qed
  qed
qed

section \<open>The reconnection delay\<close>

text \<open>
  The delay expression of \<^verbatim>\<open>scheduleReconnect\<close>, with \<^verbatim>\<open>reconnectDelay\<close> 1000 and
  \<^verbatim>\<open>maxReconnectDelay\<close> 30000, in closed form. Up to attempt 8 every intermediate value
  is a binary64 value, so nothing is rounded; from attempt 9 on the product is above the cap
  whatever the rounding does.
\<close>

lemma delay_small:
  assumes "n \<le> 8"
  shows "jsMin (jsMul (Num 1000) (jsPow (Num (3 / 2)) n)) (Num 30000) = Num (1000 * (3 / 2) ^ n)"
proof -
  from assms consider "n = 0" | "n = 1" | "n = 2" | "n = 3" | "n = 4" | "n = 5" | "n = 6"
    | "n = 7" | "n = 8" by linarith
  then show ?thesis
  proof cases
    case 1 then show ?thesis by (simp only:) code_simp
  next
    case 2 then show ?thesis by (simp only:) code_simp
  next
    case 3 then show ?thesis by (simp only:) code_simp
  next
    case 4 then show ?thesis by (simp only:) code_simp
  next
    case 5 then show ?thesis by (simp only:) code_simp
  next
    case 6 then show ?thesis by (simp only:) code_simp
  next
    case 7 then show ?thesis by (simp only:) code_simp
  next
    case 8 then show ?thesis by (simp only:) code_simp
  next
    case 9 then show ?thesis by (simp only:) code_simp
  qed
qed

lemma reconnect_delay_closed:
  "jsMin (jsMul (Num 1000) (jsPow (Num (3 / 2)) n)) (Num 30000)
     = Num (min (1000 * (3 / 2) ^ n) 30000)"
proof (cases "n \<le> 8")
  case True
  have "(3 / 2 :: rat) ^ n \<le> (3 / 2) ^ 8" using True by (intro power_increasing) auto
  then have "1000 * (3 / 2 :: rat) ^ n \<le> 30000" by (simp add: power_def)
  then show ?thesis using delay_small [OF True] by (simp add: min_def)
next
  case False
  then have n: "9 \<le> n" by simp
  have "(3 / 2 :: rat) ^ 9 \<le> (3 / 2) ^ n" using n by (intro power_increasing) auto
  then have "30000 \<le> 1000 * (3 / 2 :: rat) ^ n" by (simp add: power_def)
  then show ?thesis using delay_capped [OF n] by (simp add: min_def)
qed

section \<open>The connection manager\<close>

lemma run_append: "run s (xs @ ys) = run (run s xs) ys"
  by (induction xs arbitrary: s) simp_all

lemma connectingTransitions_append:
  "connectingTransitions s (xs @ ys)
     = connectingTransitions s xs + connectingTransitions (run s xs) ys"
  by (induction xs arbitrary: s) simp_all

lemma scheduleReconnect_constants:
  "reconnectDelay (scheduleReconnect s) = reconnectDelay s
   \<and> maxReconnectDelay (scheduleReconnect s) = maxReconnectDelay s
   \<and> maxReconnectAttempts (scheduleReconnect s) = maxReconnectAttempts s"
  by (simp add: scheduleReconnect_def stopKeepAlive_def Let_def)

lemma connect_constants:
  "reconnectDelay (connect ws s) = reconnectDelay s
   \<and> maxReconnectDelay (connect ws s) = maxReconnectDelay s
   \<and> maxReconnectAttempts (connect ws s) = maxReconnectAttempts s"
  by (simp add: connect_def cleanup_def stopKeepAlive_def split: option.splits)

lemma step_constants:
  assumes "reconnectDelay s = Num 1000"
  shows "reconnectDelay (step s e) = Num 1000
   \<and> maxReconnectDelay (step s e) = maxReconnectDelay s
   \<and> maxReconnectAttempts (step s e) = maxReconnectAttempts s"
  using assms
  by (cases e)
    (simp_all add: scheduleReconnect_constants connect_constants connectSucceeded_def
      connectFailed_def startKeepAlive_def stopKeepAlive_def restart_def destroy_def
      cleanup_def Let_def split: option.splits)

lemma run_constants:
  assumes "reconnectDelay s = Num 1000"
  shows "reconnectDelay (run s es) = Num 1000
   \<and> maxReconnectDelay (run s es) = maxReconnectDelay s
   \<and> maxReconnectAttempts (run s es) = maxReconnectAttempts s"
  using assms
proof (induction es arbitrary: s)
  case Nil
  then show ?case by simp
next
  case (Cons e es)
  from step_constants [OF Cons.prems, of e] Cons.IH [of "step s e"]
  show ?case by simp
qed

lemma constructor_constants:
  "reconnectDelay (constructor now ws) = Num 1000
   \<and> maxReconnectDelay (constructor now ws) = Num 30000
   \<and> maxReconnectAttempts (constructor now ws) = 50"
  by (simp add: constructor_def connect_constants)

lemma reachable_constants:
  "reconnectDelay (run (constructor now ws) es) = Num 1000
   \<and> maxReconnectDelay (run (constructor now ws) es) = Num 30000
   \<and> maxReconnectAttempts (run (constructor now ws) es) = 50"
  using run_constants [of "constructor now ws" es] constructor_constants [of now ws]
  by simp

lemma scheduleReconnect_timer:
  assumes "\<not> isConnecting s" "\<not> isDestroyed s"
    and "reconnectDelay s = Num 1000" "maxReconnectDelay s = Num 30000"
    and "reconnectAttempts s < maxReconnectAttempts s"
  shows "reconnectTimer (scheduleReconnect s)
           = Some (Num (min (1000 * (3 / 2) ^ Suc (reconnectAttempts s)) 30000))"
  using assms reconnect_delay_closed [of "Suc (reconnectAttempts s)"]
  by (simp add: scheduleReconnect_def stopKeepAlive_def Let_def del: power_Suc jsPow.simps)

lemma constructor_state:
  "constructor now ws =
     \<lparr>reconnectDelay = Num 1000, maxReconnectDelay = Num 30000, reconnectAttempts = 0,
      maxReconnectAttempts = 50, isConnecting = True, isDestroyed = False,
      provider = Some ws, reconnectTimer = None, keepAliveTimer = False,
      lastActivityTime = now, restartTimers = 0, closeTimers = 0\<rparr>"
  by (simp add: constructor_def connect_def cleanup_def)

lemma burst_attempts:
  assumes "k < 50"
  shows "run (constructor now None) (HandshakeFailed # replicate k ProviderError)
           = (constructor now None)\<lparr>reconnectAttempts := Suc k, isConnecting := False,
                reconnectTimer := Some (Num (min (1000 * (3 / 2) ^ Suc k) 30000))\<rparr>
         \<and> connectingTransitions (constructor now None)
              (HandshakeFailed # replicate k ProviderError) = 0"
  using assms
proof (induction k)
  case 0
  show ?case
    by (simp add: constructor_state connectFailed_def scheduleReconnect_def stopKeepAlive_def
        Let_def reconnect_delay_closed del: power_Suc jsPow.simps)
next
  case (Suc k)
  then have k: "Suc k < 50" and ih:
    "run (constructor now None) (HandshakeFailed # replicate k ProviderError)
       = (constructor now None)\<lparr>reconnectAttempts := Suc k, isConnecting := False,
            reconnectTimer := Some (Num (min (1000 * (3 / 2) ^ Suc k) 30000))\<rparr>"
    "connectingTransitions (constructor now None)
       (HandshakeFailed # replicate k ProviderError) = 0"
    by simp_all
  have split: "HandshakeFailed # replicate (Suc k) ProviderError
      = (HandshakeFailed # replicate k ProviderError) @ [ProviderError]"
    by (simp add: replicate_append_same)
  show ?case
    unfolding split run_append connectingTransitions_append ih
    using k
    by (simp add: constructor_state scheduleReconnect_def stopKeepAlive_def
        Let_def reconnect_delay_closed del: power_Suc jsPow.simps replicate.simps)
qed

lemma halted_after_errorBurst:
  "run (constructor now None) errorBurst
     = (constructor now None)\<lparr>reconnectAttempts := 51, isConnecting := False\<rparr>
   \<and> connectingTransitions (constructor now None) errorBurst = 0"
proof -
  have split: "errorBurst = (HandshakeFailed # replicate 49 ProviderError) @ [ProviderError]"
  proof -
    have "replicate (Suc 49) ProviderError = replicate 49 ProviderError @ [ProviderError]"
      by (simp only: replicate_append_same replicate_Suc)
    moreover have "Suc 49 = 50" by simp
    ultimately have "replicate 50 ProviderError = replicate 49 ProviderError @ [ProviderError]"
      by (simp only:)
    then show ?thesis unfolding errorBurst_def by (simp only: append_Cons)
  qed
  have "(49::nat) < 50" by simp
  note b = burst_attempts [OF this, of now]
  show ?thesis
    unfolding split run_append connectingTransitions_append
      b [THEN conjunct1] b [THEN conjunct2]
    by (simp add: constructor_state scheduleReconnect_def stopKeepAlive_def Let_def)
qed

lemma state_after_failures:
  "run (constructor 0 None) [HandshakeFailed]
     = (constructor 0 None)\<lparr>reconnectAttempts := 1, isConnecting := False,
          reconnectTimer := Some (Num 1500)\<rparr>
   \<and> run (constructor 0 None) [HandshakeFailed, ReconnectTimerFired None, HandshakeFailed]
     = (constructor 0 None)\<lparr>reconnectAttempts := 2, isConnecting := False,
          reconnectTimer := Some (Num 2250)\<rparr>"
  by (simp add: constructor_state connectFailed_def scheduleReconnect_def stopKeepAlive_def
      connect_def cleanup_def Let_def reconnect_delay_closed del: power_Suc jsPow.simps)
    (simp add: power_divide)

lemma halted_step:
  assumes "maxReconnectAttempts s < reconnectAttempts s" "\<not> isConnecting s"
    "reconnectTimer s = None" "restartTimers s = 0" "\<not> restarts e"
  shows "maxReconnectAttempts (step s e) < reconnectAttempts (step s e)
    \<and> \<not> isConnecting (step s e) \<and> reconnectTimer (step s e) = None
    \<and> restartTimers (step s e) = 0"
  using assms
  by (cases e)
    (simp_all add: scheduleReconnect_def stopKeepAlive_def destroy_def cleanup_def Let_def
      split: option.splits)

lemma halted_run:
  assumes "maxReconnectAttempts s < reconnectAttempts s" "\<not> isConnecting s"
    "reconnectTimer s = None" "restartTimers s = 0" "\<forall>e \<in> set es. \<not> restarts e"
  shows "connectingTransitions s es = 0 \<and> \<not> isConnecting (run s es)
    \<and> reconnectTimer (run s es) = None"
  using assms
proof (induction es arbitrary: s)
  case Nil
  then show ?case by simp
next
  case (Cons e es)
  from Cons.prems have e: "\<not> restarts e" and es: "\<forall>e \<in> set es. \<not> restarts e" by simp_all
  note st = halted_step [OF Cons.prems(1-4) e]
  from st Cons.IH [of "step s e"] es show ?case by simp
qed

lemma restart_reconnects:
  assumes "\<not> isDestroyed s" "\<not> isConnecting s"
  shows "connectingTransitions s [Restart, RestartTimerFired ws] = 1
    \<and> reconnectAttempts (restart s) = 0"
  using assms
  by (simp add: restart_def cleanup_def stopKeepAlive_def connect_def Let_def
      split: option.splits)

text \<open>
  C8. \<^verbatim>\<open>isConnected\<close> is true only if the transport reports the connection open
  (there is a provider, it has a socket, and the socket's \<^verbatim>\<open>readyState\<close> is 1) and the last
  observed activity is less than 120 seconds old; so it is false whenever no activity has
  been observed for 120 seconds or more, even if the transport still reports open.
\<close>

theorem isConnected_iff_open_and_active:
  "(isConnected now s \<longleftrightarrow>
      provider s = Some (Some 1) \<and> now - lastActivityTime s < 120000)
   \<and> (120000 \<le> now - lastActivityTime s \<longrightarrow> \<not> isConnected now s)"
  by (auto simp: isConnected_def split: option.splits)

theorem isConnected_iff_open_and_active_witness:
  "120000 \<le> (200000::int) - lastActivityTime (step (constructor 0 (Some 1)) (HandshakeOk 5))
   \<and> provider (step (constructor 0 (Some 1)) (HandshakeOk 5)) = Some (Some 1)
   \<and> \<not> isConnected 200000 (step (constructor 0 (Some 1)) (HandshakeOk 5))
   \<and> isConnected 100000 (step (constructor 0 (Some 1)) (HandshakeOk 5))"
  using isConnected_iff_open_and_active [of 200000 "step (constructor 0 (Some 1)) (HandshakeOk 5)"]
    isConnected_iff_open_and_active [of 100000 "step (constructor 0 (Some 1)) (HandshakeOk 5)"]
  by (simp add: constructor_def connect_def cleanup_def connectSucceeded_def
      startKeepAlive_def stopKeepAlive_def)

text \<open>
  C7. For every reconnection attempt \<open>n\<close> in 1..50, the delay scheduled before re-entering
  Connecting is \<open>min(1000 * 1.5^n, 30000)\<close> milliseconds, and the delays are monotonically
  non-decreasing until they reach the cap of 30000 ms. Here \<open>s\<close> and \<open>t\<close> are states of a
  provider built by the constructor, in which \<^verbatim>\<open>scheduleReconnect\<close> passes its guard; it
  makes attempt \<open>n = reconnectAttempts + 1\<close>, and the attempt of \<open>t\<close> is not earlier than
  the attempt of \<open>s\<close>.
\<close>

theorem scheduleReconnect_backoff:
  assumes "s = run (constructor now ws) es" and "t = run (constructor now' ws') es'"
    and "\<not> isConnecting s" "\<not> isDestroyed s" "\<not> isConnecting t" "\<not> isDestroyed t"
    and "reconnectAttempts s \<le> reconnectAttempts t" "reconnectAttempts t < 50"
  shows "reconnectTimer (scheduleReconnect s)
           = Some (Num (min (1000 * (3 / 2) ^ Suc (reconnectAttempts s)) 30000))
       \<and> reconnectTimer (scheduleReconnect t)
           = Some (Num (min (1000 * (3 / 2) ^ Suc (reconnectAttempts t)) 30000))
       \<and> min (1000 * (3 / 2) ^ Suc (reconnectAttempts s)) (30000 :: rat)
           \<le> min (1000 * (3 / 2) ^ Suc (reconnectAttempts t)) 30000"
proof -
  have cs: "reconnectDelay s = Num 1000" "maxReconnectDelay s = Num 30000"
    "maxReconnectAttempts s = 50"
    using reachable_constants [of now ws es] assms(1) by simp_all
  have ct: "reconnectDelay t = Num 1000" "maxReconnectDelay t = Num 30000"
    "maxReconnectAttempts t = 50"
    using reachable_constants [of now' ws' es'] assms(2) by simp_all
  have 1: "reconnectTimer (scheduleReconnect s)
           = Some (Num (min (1000 * (3 / 2) ^ Suc (reconnectAttempts s)) 30000))"
    using assms(3,4,7,8) cs by (intro scheduleReconnect_timer) simp_all
  have 2: "reconnectTimer (scheduleReconnect t)
           = Some (Num (min (1000 * (3 / 2) ^ Suc (reconnectAttempts t)) 30000))"
    using assms(5,6,8) ct by (intro scheduleReconnect_timer) simp_all
  have "(3 / 2 :: rat) ^ Suc (reconnectAttempts s) \<le> (3 / 2) ^ Suc (reconnectAttempts t)"
    using assms(7) by (intro power_increasing) simp_all
  then have "1000 * (3 / 2 :: rat) ^ Suc (reconnectAttempts s)
           \<le> 1000 * (3 / 2) ^ Suc (reconnectAttempts t)"
    by (simp del: power_Suc)
  then have 3: "min (1000 * (3 / 2) ^ Suc (reconnectAttempts s)) (30000 :: rat)
           \<le> min (1000 * (3 / 2) ^ Suc (reconnectAttempts t)) 30000"
    by (intro min.mono) simp_all
  from 1 2 3 show ?thesis by simp
qed

theorem scheduleReconnect_backoff_witness:
  "reconnectTimer (scheduleReconnect (run (constructor 0 None) [HandshakeFailed]))
     = Some (Num 2250)
   \<and> reconnectTimer (scheduleReconnect
         (run (constructor 0 None) [HandshakeFailed, ReconnectTimerFired None, HandshakeFailed]))
     = Some (Num 3375)"
  using scheduleReconnect_backoff
    [of "run (constructor 0 None) [HandshakeFailed]" 0 None "[HandshakeFailed]"
        "run (constructor 0 None) [HandshakeFailed, ReconnectTimerFired None, HandshakeFailed]"
        0 None "[HandshakeFailed, ReconnectTimerFired None, HandshakeFailed]"]
  unfolding state_after_failures [THEN conjunct1] state_after_failures [THEN conjunct2]
  by (simp add: constructor_state power_divide)

text \<open>
  C3, as the specification states it: once the attempt cap of 50 is exceeded, no further
  transition into Connecting ever occurs. It does not hold. After the burst of errors the
  counter stands at 51, above the cap of 50, no timer is pending and the provider is not
  connecting; the health check that comes round at 120 s finds the provider not connected
  and calls \<^verbatim>\<open>restart\<close>, and three seconds later the provider is connecting again.
\<close>

theorem reconnect_cap_lifted_by_health_check:
  "reconnectAttempts (run (constructor 0 None) errorBurst) = 51
   \<and> maxReconnectAttempts (run (constructor 0 None) errorBurst) = 50
   \<and> reconnectTimer (run (constructor 0 None) errorBurst) = None
   \<and> \<not> isConnecting (run (constructor 0 None) errorBurst)
   \<and> connectingTransitions (run (constructor 0 None) errorBurst)
         [HealthCheck 120000, RestartTimerFired None] = 1"
  unfolding halted_after_errorBurst [THEN conjunct1]
  by (simp add: constructor_state isConnected_def restart_def cleanup_def stopKeepAlive_def
      connect_def Let_def)

text \<open>
  C3, amended. Let the attempt counter exceed the cap while no connection attempt is in
  progress, no reconnection timer is pending and no restart timer is pending. Then no
  listener, timer or \<^verbatim>\<open>destroy\<close> brings the provider back into Connecting: recovery is
  halted for as long as nothing calls \<^verbatim>\<open>restart\<close>. A call of \<^verbatim>\<open>restart\<close> on a provider
  that is not destroyed resets the counter to 0 and is followed by one transition into
  Connecting; the health check makes that call whenever it finds the provider not
  connected.
\<close>

theorem reconnect_cap_halts_until_restart:
  assumes "maxReconnectAttempts s < reconnectAttempts s" "\<not> isConnecting s"
    "reconnectTimer s = None" "restartTimers s = 0" "\<forall>e \<in> set es. \<not> restarts e"
  shows "connectingTransitions s es = 0 \<and> \<not> isConnecting (run s es)
    \<and> reconnectTimer (run s es) = None
    \<and> (\<not> isDestroyed s \<longrightarrow>
          connectingTransitions s [Restart, RestartTimerFired ws] = 1
          \<and> reconnectAttempts (restart s) = 0)
    \<and> (\<not> isDestroyed s \<and> \<not> isConnected now s \<longrightarrow>
          connectingTransitions s [HealthCheck now, RestartTimerFired ws] = 1)"
proof -
  have "\<not> isDestroyed s \<and> \<not> isConnected now s \<longrightarrow>
          connectingTransitions s [HealthCheck now, RestartTimerFired ws] = 1"
    using restart_reconnects [of s ws] assms(2) by simp
  then show ?thesis
    using halted_run [OF assms] restart_reconnects [of s ws] assms(2) by blast
qed

theorem reconnect_cap_halts_until_restart_witness:
  "connectingTransitions (run (constructor 0 None) errorBurst)
      [ProviderError, ProviderError, Destroy] = 0
   \<and> \<not> isConnecting (run (run (constructor 0 None) errorBurst)
      [ProviderError, ProviderError, Destroy])
   \<and> connectingTransitions (run (constructor 0 None) errorBurst)
      [Restart, RestartTimerFired None] = 1
   \<and> connectingTransitions (run (constructor 0 None) errorBurst)
      [HealthCheck 120000, RestartTimerFired None] = 1"
  using reconnect_cap_halts_until_restart
    [of "run (constructor 0 None) errorBurst" "[ProviderError, ProviderError, Destroy]"
        None 120000]
  unfolding halted_after_errorBurst [THEN conjunct1]
  by (simp add: constructor_state isConnected_def)

section \<open>The rate cache\<close>














section \<open>The sniper check\<close>

lemma default_threshold: "fl (1 / 5) = Num (3602879701896397 / 18014398509481984)"
  by code_simp




lemma interestedUsersOf_group: "ZKP2P_GROUP_ID \<in> set (interestedUsersOf env)"
  by (simp add: interestedUsersOf_def Let_def)

lemma alertLoop_append:
  assumes "snd (alertLoop env m pd pre) = Returned"
  shows "alertLoop env m pd (pre @ rest)
           = (fst (alertLoop env m pd pre) @ fst (alertLoop env m pd rest),
              snd (alertLoop env m pd rest))"
  using assms
proof (induction pre)
  case Nil
  then show ?case by simp
next
  case (Cons chatId pre)
  show ?case
  proof (cases "jsGe pd (getUserThreshold (userSettings env chatId))")
    case False
    with Cons show ?thesis by (simp add: Let_def split: prod.splits)
  next
    case True
    obtain out n sleeps where p:
      "postToDiscord (sniperWebhook env) (sniperDiscord env chatId) = (out, n, sleeps)"
      by (cases "postToDiscord (sniperWebhook env) (sniperDiscord env chatId)") auto
    show ?thesis
    proof (cases out)
      case Returned
      with Cons True p show ?thesis by (simp add: Let_def split: prod.splits)
    next
      case Thrown
      with Cons.prems True p show ?thesis by (simp add: Let_def)
    next
      case NeverSettles
      with Cons.prems True p show ?thesis by (simp add: Let_def)
    qed
  qed
qed

lemma alertLoop_evaluated:
  assumes "snd (alertLoop env m pd chats) = Returned"
  shows "evaluated (fst (alertLoop env m pd chats)) = chats"
  using assms
proof (induction chats)
  case Nil
  then show ?case by (simp add: evaluated_def)
next
  case (Cons chatId chats)
  show ?case
  proof (cases "jsGe pd (getUserThreshold (userSettings env chatId))")
    case False
    with Cons show ?thesis by (simp add: Let_def evaluated_def split: prod.splits)
  next
    case True
    obtain out n sleeps where p:
      "postToDiscord (sniperWebhook env) (sniperDiscord env chatId) = (out, n, sleeps)"
      by (cases "postToDiscord (sniperWebhook env) (sniperDiscord env chatId)") auto
    show ?thesis
    proof (cases out)
      case Returned
      with Cons True p show ?thesis by (simp add: Let_def evaluated_def split: prod.splits)
    next
      case Thrown
      with Cons.prems True p show ?thesis by (simp add: Let_def)
    next
      case NeverSettles
      with Cons.prems True p show ?thesis by (simp add: Let_def)
    qed
  qed
qed


lemma alertLoop_due:
  assumes "jsGe pd (getUserThreshold (userSettings env chatId))"
    and "postToDiscord (sniperWebhook env) (sniperDiscord env chatId) = (out, n, sleeps)"
  shows "alertLoop env m pd (chatId # post)
           = (if out = Returned
              then ([ThresholdRead chatId, SniperAlertLogged chatId, DiscordPost chatId n sleeps,
                     TelegramMessage (m chatId)] @ fst (alertLoop env m pd post),
                    snd (alertLoop env m pd post))
              else ([ThresholdRead chatId, SniperAlertLogged chatId, DiscordPost chatId n sleeps],
                    out))"
  using assms by (cases out) (simp_all add: Let_def split: prod.splits)








lemma exampleEnv_run:
  "checkSniperOpportunity exampleEnv 42 usdHash 950000000000000000 initialCache
     = ([ThresholdRead 7, SniperAlertLogged 7, DiscordPost 7 1 [],
         TelegramMessage
           \<lparr>alertChat = 7, alertDeposit = 42, alertCurrency = ''USD'',
            alertDepositRate = Num (4278419646001971 / 4503599627370496),
            alertMarketRate = Num 1,
            alertPercentageDiff = Num (5 + 5 / 2 ^ 50), alertThread = None\<rparr>,
         ThresholdRead (- 1001928949520), SniperAlertLogged (- 1001928949520),
         DiscordPost (- 1001928949520) 1 [],
         TelegramMessage
           \<lparr>alertChat = - 1001928949520, alertDeposit = 42, alertCurrency = ''USD'',
            alertDepositRate = Num (4278419646001971 / 4503599627370496),
            alertMarketRate = Num 1,
            alertPercentageDiff = Num (5 + 5 / 2 ^ 50), alertThread = Some 5671\<rparr>],
        Returned, initialCache)"
  by code_simp


lemma failingDiscordEnv_run:
  "checkSniperOpportunity failingDiscordEnv 42 usdHash 950000000000000000 initialCache
     = ([ThresholdRead 7, SniperAlertLogged 7, DiscordPost 7 1 []], Thrown, initialCache)"
  by code_simp

lemma slowDiscordEnv_run:
  "checkSniperOpportunity slowDiscordEnv 42 usdHash 950000000000000000 initialCache
     = ([ThresholdRead 7, SniperAlertLogged 7, DiscordPost 7 2 [Num 2000]], NeverSettles,
        initialCache)"
  by code_simp

lemma example_users:
  "interestedUsersOf exampleEnv = [7, ZKP2P_GROUP_ID]
   \<and> interestedUsersOf strictEnv = [7, ZKP2P_GROUP_ID]
   \<and> interestedUsersOf failingDiscordEnv = [7, ZKP2P_GROUP_ID]
   \<and> interestedUsersOf slowDiscordEnv = [7, ZKP2P_GROUP_ID]"
  by (simp add: interestedUsersOf_def getUsersWithSniper_def setAdd_def exampleEnv_def
      strictEnv_def failingDiscordEnv_def slowDiscordEnv_def ZKP2P_GROUP_ID_def)



text \<open>
  C9. \<^verbatim>\<open>getUserThreshold\<close> reads the stored threshold through a falsy-coercing default: it
  returns 0.2 when no row exists or the read fails, when the row's threshold is null, and
  also when the stored threshold is exactly 0; so no subscriber is ever evaluated with an
  effective threshold of 0.
\<close>

theorem getUserThreshold_falsy_default:
  "getUserThreshold None = fl (1 / 5)
   \<and> getUserThreshold (Some None) = fl (1 / 5)
   \<and> getUserThreshold (Some (Some (Num 0))) = fl (1 / 5)
   \<and> getUserThreshold data \<noteq> Num 0
   \<and> fl (1 / 5) = Num (3602879701896397 / 18014398509481984)"
proof -
  have "getUserThreshold data \<noteq> Num 0"
    by (auto simp: getUserThreshold_def default_threshold split: option.splits)
  then show ?thesis by (simp add: getUserThreshold_def default_threshold)
qed

theorem getUserThreshold_falsy_default_witness:
  "getUserThreshold (Some (Some (Num 0))) = Num (3602879701896397 / 18014398509481984)
   \<and> getUserThreshold (Some (Some (Num 5))) = Num 5"
  using getUserThreshold_falsy_default [of "Some (Some (Num 5))"]
  by (simp add: getUserThreshold_def)






text \<open>
  C4, as the specification states it: a failure or delay in delivering one subscriber's
  alert does not prevent threshold evaluation and alert emission for the other candidates.
  It does not hold: the Discord mirror of each alert is awaited inside the loop. When the
  request made for subscriber 7 fails, the group, which comes next and whose threshold is
  reached, is neither evaluated nor alerted; when that request is rate-limited and its retry
  is never answered, the loop never gets to the group either.
\<close>

theorem later_subscribers_wait_for_discord:
  "interestedUsersOf failingDiscordEnv = [7, ZKP2P_GROUP_ID]
   \<and> evaluated
        (fst (checkSniperOpportunity failingDiscordEnv 42 usdHash 950000000000000000 initialCache))
      = [7]
   \<and> alertsTo ZKP2P_GROUP_ID
        (fst (checkSniperOpportunity failingDiscordEnv 42 usdHash 950000000000000000 initialCache))
      = []
   \<and> length (alertsTo ZKP2P_GROUP_ID
        (fst (checkSniperOpportunity exampleEnv 42 usdHash 950000000000000000 initialCache)))
      = 1
   \<and> interestedUsersOf slowDiscordEnv = [7, ZKP2P_GROUP_ID]
   \<and> evaluated
        (fst (checkSniperOpportunity slowDiscordEnv 42 usdHash 950000000000000000 initialCache))
      = [7]
   \<and> fst (snd (checkSniperOpportunity slowDiscordEnv 42 usdHash 950000000000000000 initialCache))
      = NeverSettles"
  unfolding failingDiscordEnv_run slowDiscordEnv_run exampleEnv_run
  by (simp add: example_users alertsTo_def evaluated_def ZKP2P_GROUP_ID_def)

text \<open>
  C4, amended. The candidates are handled one after the other. A candidate whose threshold
  is reached has its alert logged and mirrored to Discord, and only when that call has
  returned is the alert sent to the subscriber (without waiting for the delivery) and the
  next candidate evaluated. The call returns when the webhook is not configured and when
  the webhook answers with any status other than 429, an error status included; an answer
  429 makes it pause and ask again. If the call throws (the request fails) or never
  settles, the loop ends there: that subscriber and all later candidates receive no alert,
  and the later ones are not evaluated. When the loop runs to its end, every candidate has
  been evaluated.
\<close>

theorem alert_loop_is_sequential:
  assumes "snd (alertLoop env m pd pre) = Returned"
    and "jsGe pd (getUserThreshold (userSettings env chatId))"
    and "postToDiscord (sniperWebhook env) (sniperDiscord env chatId) = (out, n, sleeps)"
  shows "alertLoop env m pd (pre @ chatId # post)
           = (if out = Returned
              then (fst (alertLoop env m pd pre)
                      @ [ThresholdRead chatId, SniperAlertLogged chatId,
                         DiscordPost chatId n sleeps, TelegramMessage (m chatId)]
                      @ fst (alertLoop env m pd post),
                    snd (alertLoop env m pd post))
              else (fst (alertLoop env m pd pre)
                      @ [ThresholdRead chatId, SniperAlertLogged chatId,
                         DiscordPost chatId n sleeps],
                    out))
     \<and> (snd (alertLoop env m pd chats) = Returned
          \<longrightarrow> evaluated (fst (alertLoop env m pd chats)) = chats)
     \<and> postToDiscord False replies = (Returned, 0, [])
     \<and> (status \<noteq> 429
          \<longrightarrow> postToDiscord True (Status status retry_after # replies) = (Returned, 1, []))
     \<and> postToDiscord True (NetworkError # replies) = (Thrown, 1, [])
     \<and> postToDiscord True [] = (NeverSettles, 1, [])"
proof -
  have 1: "alertLoop env m pd (pre @ chatId # post)
           = (if out = Returned
              then (fst (alertLoop env m pd pre)
                      @ [ThresholdRead chatId, SniperAlertLogged chatId,
                         DiscordPost chatId n sleeps, TelegramMessage (m chatId)]
                      @ fst (alertLoop env m pd post),
                    snd (alertLoop env m pd post))
              else (fst (alertLoop env m pd pre)
                      @ [ThresholdRead chatId, SniperAlertLogged chatId,
                         DiscordPost chatId n sleeps],
                    out))"
    unfolding alertLoop_append [OF assms(1)] alertLoop_due [OF assms(2,3)] by simp
  have 2: "snd (alertLoop env m pd chats) = Returned
          \<longrightarrow> evaluated (fst (alertLoop env m pd chats)) = chats"
    using alertLoop_evaluated by blast
  from 1 2 show ?thesis by simp
qed

theorem alert_loop_is_sequential_witness:
  "alertLoop failingDiscordEnv (sniperMessage 42 ''USD'' (Num 1) (Num 1) (Num 5)) (Num 5)
      ([] @ 7 # [ZKP2P_GROUP_ID])
     = ([ThresholdRead 7, SniperAlertLogged 7, DiscordPost 7 1 []], Thrown)
   \<and> alertLoop exampleEnv (sniperMessage 42 ''USD'' (Num 1) (Num 1) (Num 5)) (Num 5)
      ([] @ 7 # [])
     = ([ThresholdRead 7, SniperAlertLogged 7, DiscordPost 7 1 [],
         TelegramMessage (sniperMessage 42 ''USD'' (Num 1) (Num 1) (Num 5) 7)], Returned)"
proof -
  have p1: "postToDiscord (sniperWebhook failingDiscordEnv) (sniperDiscord failingDiscordEnv 7)
      = (Thrown, 1, [])"
    by (simp add: failingDiscordEnv_def exampleEnv_def)
  have p2: "postToDiscord (sniperWebhook exampleEnv) (sniperDiscord exampleEnv 7)
      = (Returned, 1, [])"
    by (simp add: exampleEnv_def)
  have t1: "jsGe (Num 5) (getUserThreshold (userSettings failingDiscordEnv 7))"
    by (simp add: failingDiscordEnv_def exampleEnv_def getUserThreshold_def)
  have t2: "jsGe (Num 5) (getUserThreshold (userSettings exampleEnv 7))"
    by (simp add: exampleEnv_def getUserThreshold_def)
  have r: "snd (alertLoop failingDiscordEnv (sniperMessage 42 ''USD'' (Num 1) (Num 1) (Num 5))
      (Num 5) []) = Returned"
    "snd (alertLoop exampleEnv (sniperMessage 42 ''USD'' (Num 1) (Num 1) (Num 5))
      (Num 5) []) = Returned"
    by simp_all
  from alert_loop_is_sequential [OF r(1) t1 p1, of "[ZKP2P_GROUP_ID]", THEN conjunct1]
    alert_loop_is_sequential [OF r(2) t2 p2, of "[]", THEN conjunct1]
  show ?thesis by simp
qed

section \<open>Transaction reconciliation\<close>

text \<open>
  The theorems of this section are about one batch: the logs of a transaction are handed to
  the handlers one after the other, and then the timer of the transaction fires and
  \<^verbatim>\<open>processCompletedTransaction\<close> runs. Logs that arrive while a notifier is awaited are
  outside what is stated here.
\<close>

subsection \<open>The maps and the batch\<close>

lemma map_of_mapSet: "map_of (mapSet k v m) = (map_of m)(k \<mapsto> v)"
  by (induction m) auto






lemma record_intent_dom:
  "dom (map_of (rawIntents (record_intent e d))) = insert (intentOf e) (dom (map_of (rawIntents d)))"
  by (cases e) (simp_all add: map_of_mapSet)

lemma record_intent_keys:
  assumes "\<And>k r. map_of (rawIntents d) k = Some r \<Longrightarrow> toLowerCase (rawIntentHash r) = k"
    and "map_of (rawIntents (record_intent e d)) k = Some r"
  shows "toLowerCase (rawIntentHash r) = k"
  using assms
  by (cases e) (auto simp: map_of_mapSet split: if_splits)




lemma recordAll_dom:
  "dom (map_of (rawIntents (recordAll es d))) = dom (map_of (rawIntents d)) \<union> intentOf ` set es"
  by (induction es arbitrary: d) (auto simp: record_intent_dom)

lemma recordAll_keys:
  assumes "\<And>k r. map_of (rawIntents d) k = Some r \<Longrightarrow> toLowerCase (rawIntentHash r) = k"
    and "map_of (rawIntents (recordAll es d)) k = Some r"
  shows "toLowerCase (rawIntentHash r) = k"
  using assms
proof (induction es arbitrary: d)
  case Nil
  then show ?case by simp
next
  case (Cons e es)
  show ?case
  proof (rule Cons.IH [of "record_intent e d"])
    fix k' r'
    assume "map_of (rawIntents (record_intent e d)) k' = Some r'"
    then show "toLowerCase (rawIntentHash r') = k'"
      using record_intent_keys [of d e k' r'] Cons.prems(1) by blast
  next
    show "map_of (rawIntents (recordAll es (record_intent e d))) k = Some r"
      using Cons.prems(2) by simp
  qed
qed

lemma handleIntentEvent_other:
  "orchestratorIntentDetails (handleIntentEvent l st) = orchestratorIntentDetails st
   \<and> intentDetails (handleIntentEvent l st) = intentDetails st"
  by (simp add: handleIntentEvent_def scheduleTransactionProcessing_def Let_def)

lemma handleAll_other:
  "orchestratorIntentDetails (handleAll ls st) = orchestratorIntentDetails st
   \<and> intentDetails (handleAll ls st) = intentDetails st"
  by (induction ls arbitrary: st) (simp_all add: handleIntentEvent_other)

lemma handleIntentEvent_pending:
  "map_of (pendingTransactions (handleIntentEvent l st)) (transactionHash l)
     = Some (record_intent (parsed l)
         (case map_of (pendingTransactions st) (transactionHash l) of
            None \<Rightarrow> \<lparr>fulfilled = [], pruned = [], blockNumber = logBlockNumber l, rawIntents = []\<rparr>
          | Some d \<Rightarrow> d))"
  by (simp add: handleIntentEvent_def scheduleTransactionProcessing_def Let_def map_of_mapSet)

lemma handleAll_pending_entry:
  assumes "\<forall>l \<in> set ls. transactionHash l = tx" "map_of (pendingTransactions st) tx = Some d"
  shows "map_of (pendingTransactions (handleAll ls st)) tx = Some (recordAll (map parsed ls) d)"
  using assms
proof (induction ls arbitrary: st d)
  case Nil
  then show ?case by simp
next
  case (Cons l ls)
  then have tx: "transactionHash l = tx" by simp
  have "map_of (pendingTransactions (handleIntentEvent l st)) tx
      = Some (record_intent (parsed l) d)"
    using handleIntentEvent_pending [of l st] Cons.prems(2) tx by simp
  from Cons.IH [OF _ this] Cons.prems(1) show ?case by simp
qed

lemma handleAll_pending:
  assumes "\<forall>l \<in> set ls. transactionHash l = tx" "map_of (pendingTransactions st) tx = None"
    "ls \<noteq> []"
  shows "\<exists>b. map_of (pendingTransactions (handleAll ls st)) tx
           = Some (recordAll (map parsed ls)
               \<lparr>fulfilled = [], pruned = [], blockNumber = b, rawIntents = []\<rparr>)"
proof -
  obtain l ls' where ls: "ls = l # ls'" using assms(3) by (cases ls) auto
  then have tx: "transactionHash l = tx" and rest: "\<forall>l \<in> set ls'. transactionHash l = tx"
    using assms(1) by simp_all
  have "map_of (pendingTransactions (handleIntentEvent l st)) tx
      = Some (record_intent (parsed l)
          \<lparr>fulfilled = [], pruned = [], blockNumber = logBlockNumber l, rawIntents = []\<rparr>)"
    using handleIntentEvent_pending [of l st] assms(2) tx by simp
  from handleAll_pending_entry [OF rest this] show ?thesis unfolding ls by auto
qed

subsection \<open>The notifiers and the two loops\<close>













lemma processCompletedTransaction_both:
  assumes "map_of (pendingTransactions st) tx = Some d"
    and "processIntents env Cancelled d (pruned d) st = (calls1, ns1, Returned, st1)"
    and "processIntents env Fulfilled d (fulfilled d) st1 = (calls2, ns2, out2, st2)"
  shows "processCompletedTransaction env tx st
           = (calls1 @ calls2, ns1 @ ns2, out2,
              if out2 = Returned
              then st2\<lparr>pendingTransactions := mapDelete tx (pendingTransactions st2)\<rparr>
              else st2)"
  using assms by (cases out2) (simp_all add: processCompletedTransaction_def)


subsection \<open>A whole batch\<close>



subsection \<open>What is announced\<close>




















subsection \<open>Three batches\<close>


lemma orchestratorLogs_run:
  "processCompletedTransaction quietEnv ''0xt1'' (handleAll orchestratorLogs initialState)
     = ([(Cancelled, ''0xd4''), (Fulfilled, ''0xc3'')], [], Returned,
        \<lparr>pendingTransactions = [], processingScheduled = [''0xt1''],
         intentDetails = [], orchestratorIntentDetails = []\<rparr>)"
  by code_simp





text \<open>
  When \<^verbatim>\<open>IntentFulfilled\<close> of the escrow is received before \<^verbatim>\<open>IntentPruned\<close> of the same
  intent, the object stored last has no \<^verbatim>\<open>verifier\<close>: the intent is dispatched as fulfilled,
  \<^verbatim>\<open>getPlatformName\<close> throws and nothing is sent. (In the other order, the one of
  \<open>escrowLogs\<close>, the fulfilled notice is sent.)
\<close>

lemma reversedLogs_run:
  "processCompletedTransaction quietEnv ''0xt1'' (handleAll reversedLogs initialState)
     = ([(Fulfilled, ''0xa1'')], [], Thrown, handleAll reversedLogs initialState)"
  by code_simp

subsection \<open>One outcome for each intent\<close>




subsection \<open>Orchestrator intents without stored details\<close>

lemma orchestratorNotification_skipped:
  assumes "map_of (orchestratorIntentDetails st) (toLowerCase (rawIntentHash raw)) = None"
  shows "orchestratorNotification env kind raw st = ([], Returned, st)"
  using assms by (simp add: orchestratorNotification_def Let_def)

lemma record_intent_orchestrator:
  assumes "isOrchestrator e"
    and "\<And>k r. map_of (rawIntents d) k = Some r \<Longrightarrow> rawEventType r = Some ''orchestrator''"
    and "map_of (rawIntents (record_intent e d)) k = Some r"
  shows "rawEventType r = Some ''orchestrator''"
  using assms by (cases e) (auto simp: map_of_mapSet split: if_splits)

lemma recordAll_orchestrator:
  assumes "\<forall>e \<in> set es. isOrchestrator e"
    and "\<And>k r. map_of (rawIntents d) k = Some r \<Longrightarrow> rawEventType r = Some ''orchestrator''"
    and "map_of (rawIntents (recordAll es d)) k = Some r"
  shows "rawEventType r = Some ''orchestrator''"
  using assms
proof (induction es arbitrary: d)
  case Nil
  then show ?case by simp
next
  case (Cons e es)
  show ?case
  proof (rule Cons.IH [of "record_intent e d"])
    show "\<forall>e \<in> set es. isOrchestrator e" using Cons.prems(1) by simp
  next
    fix k' r'
    assume "map_of (rawIntents (record_intent e d)) k' = Some r'"
    then show "rawEventType r' = Some ''orchestrator''"
      using record_intent_orchestrator [of e d k' r'] Cons.prems(1,2) by simp
  next
    show "map_of (rawIntents (recordAll es (record_intent e d))) k = Some r"
      using Cons.prems(3) by simp
  qed
qed

lemma processIntents_skipped:
  assumes "\<forall>k r. map_of (rawIntents d) k = Some r \<longrightarrow>
             rawEventType r = Some ''orchestrator''
             \<and> map_of (orchestratorIntentDetails st) (toLowerCase (rawIntentHash r)) = None"
  shows "\<exists>calls. processIntents env kind d hashes st = (calls, [], Returned, st)"
proof (induction hashes)
  case Nil
  then show ?case by simp
next
  case (Cons h hashes)
  then obtain calls where ih: "processIntents env kind d hashes st = (calls, [], Returned, st)"
    by blast
  show ?case
  proof (cases "map_of (rawIntents d) h")
    case None
    with ih show ?thesis by auto
  next
    case (Some raw)
    from assms Some have o: "rawEventType raw = Some ''orchestrator''"
      and n: "map_of (orchestratorIntentDetails st) (toLowerCase (rawIntentHash raw)) = None"
      by blast+
    from orchestratorNotification_skipped [OF n]
    have "sendOrchestratorPrunedNotification env raw st = ([], Returned, st)"
      "sendOrchestratorFulfilledNotification env raw st = ([], Returned, st)"
      by (simp_all add: sendOrchestratorPrunedNotification_def
          sendOrchestratorFulfilledNotification_def)
    with ih Some o show ?thesis by auto
  qed
qed

lemma orchestrator_batch_silent:
  assumes tx: "\<forall>l \<in> set ls. transactionHash l = tx"
    and orch: "\<forall>l \<in> set ls. isOrchestrator (parsed l)"
    and nodetails: "\<forall>l \<in> set ls. map_of (orchestratorIntentDetails st) (intentOf (parsed l)) = None"
    and fresh: "map_of (pendingTransactions st) tx = None"
  shows "fst (snd (processCompletedTransaction env tx (handleAll ls st))) = []
    \<and> fst (snd (snd (processCompletedTransaction env tx (handleAll ls st)))) = Returned"
proof (cases "ls = []")
  case True
  with fresh show ?thesis by (simp add: processCompletedTransaction_def)
next
  case False
  from handleAll_pending [OF tx fresh False] obtain b where
    entry: "map_of (pendingTransactions (handleAll ls st)) tx
      = Some (recordAll (map parsed ls)
          \<lparr>fulfilled = [], pruned = [], blockNumber = b, rawIntents = []\<rparr>)"
    by blast
  let ?new = "\<lparr>fulfilled = [], pruned = [], blockNumber = b, rawIntents = []\<rparr>"
  let ?batch = "recordAll (map parsed ls) ?new"
  let ?st = "handleAll ls st"
  have details: "orchestratorIntentDetails ?st = orchestratorIntentDetails st"
    using handleAll_other by simp
  have inv: "\<forall>k r. map_of (rawIntents ?batch) k = Some r \<longrightarrow>
             rawEventType r = Some ''orchestrator''
             \<and> map_of (orchestratorIntentDetails ?st) (toLowerCase (rawIntentHash r)) = None"
  proof (intro allI impI)
    fix k r assume kr: "map_of (rawIntents ?batch) k = Some r"
    have o: "rawEventType r = Some ''orchestrator''"
      by (rule recordAll_orchestrator [where es = "map parsed ls" and d = ?new and k = k])
         (use orch kr in simp_all)
    have key: "toLowerCase (rawIntentHash r) = k"
      by (rule recordAll_keys [where es = "map parsed ls" and d = ?new]) (use kr in simp_all)
    have "k \<in> dom (map_of (rawIntents ?batch))" using kr by blast
    then have "k \<in> intentOf ` set (map parsed ls)"
      using recordAll_dom [where es = "map parsed ls" and d = ?new] by simp
    then obtain l where "l \<in> set ls" "k = intentOf (parsed l)" by auto
    with nodetails have "map_of (orchestratorIntentDetails st) k = None" by simp
    with o key details
    show "rawEventType r = Some ''orchestrator''
             \<and> map_of (orchestratorIntentDetails ?st) (toLowerCase (rawIntentHash r)) = None"
      by simp
  qed
  from processIntents_skipped [of ?batch ?st env Cancelled "pruned ?batch", OF inv]
  obtain calls1 where p1:
    "processIntents env Cancelled ?batch (pruned ?batch) ?st = (calls1, [], Returned, ?st)"
    by blast
  from processIntents_skipped [of ?batch ?st env Fulfilled "fulfilled ?batch", OF inv]
  obtain calls2 where p2:
    "processIntents env Fulfilled ?batch (fulfilled ?batch) ?st = (calls2, [], Returned, ?st)"
    by blast
  from processCompletedTransaction_both [OF entry p1 p2] show ?thesis by simp
qed

text \<open>
  C10: for an orchestrator intent with no entry in the stored intent details, the fulfilled
  and the pruned notifier return at once, emitting nothing and leaving the state as it is.
  Hence a batch made only of orchestrator events whose intents have no stored details is
  reconciled without any notification, and the reconciliation returns: such an intent gets
  no outcome.
\<close>

theorem orchestrator_notification_skipped_without_details:
  "(map_of (orchestratorIntentDetails st) (toLowerCase (rawIntentHash raw)) = None
      \<longrightarrow> sendOrchestratorFulfilledNotification env raw st = ([], Returned, st)
        \<and> sendOrchestratorPrunedNotification env raw st = ([], Returned, st))
   \<and> ((\<forall>l \<in> set ls. transactionHash l = tx \<and> isOrchestrator (parsed l)
            \<and> map_of (orchestratorIntentDetails st0) (intentOf (parsed l)) = None)
        \<and> map_of (pendingTransactions st0) tx = None
      \<longrightarrow> fst (snd (processCompletedTransaction env tx (handleAll ls st0))) = []
        \<and> fst (snd (snd (processCompletedTransaction env tx (handleAll ls st0)))) = Returned)"
proof -
  have 1: "map_of (orchestratorIntentDetails st) (toLowerCase (rawIntentHash raw)) = None
      \<longrightarrow> sendOrchestratorFulfilledNotification env raw st = ([], Returned, st)
        \<and> sendOrchestratorPrunedNotification env raw st = ([], Returned, st)"
    using orchestratorNotification_skipped [of st raw env]
    by (simp add: sendOrchestratorPrunedNotification_def
        sendOrchestratorFulfilledNotification_def)
  have 2: "(\<forall>l \<in> set ls. transactionHash l = tx \<and> isOrchestrator (parsed l)
            \<and> map_of (orchestratorIntentDetails st0) (intentOf (parsed l)) = None)
        \<and> map_of (pendingTransactions st0) tx = None
      \<longrightarrow> fst (snd (processCompletedTransaction env tx (handleAll ls st0))) = []
        \<and> fst (snd (snd (processCompletedTransaction env tx (handleAll ls st0)))) = Returned"
    using orchestrator_batch_silent [of ls tx st0 env] by blast
  from 1 2 show ?thesis by blast
qed

theorem orchestrator_notification_skipped_without_details_witness:
  "sendOrchestratorFulfilledNotification quietEnv
      \<lparr>rawEventType = Some ''orchestrator'', rawType = ''fulfilled'', rawIntentHash = ''0xC3'',
       rawDepositId = None, rawVerifier = None\<rparr> initialState
     = ([], Returned, initialState)
   \<and> fst (snd (processCompletedTransaction quietEnv ''0xt1''
        (handleAll orchestratorLogs initialState))) = []
   \<and> fst (processCompletedTransaction quietEnv ''0xt1''
        (handleAll orchestratorLogs initialState))
       = [(Cancelled, ''0xd4''), (Fulfilled, ''0xc3'')]
   \<and> fst (snd (processCompletedTransaction quietEnv ''0xt1''
        (handleAll orchestratorLogs
           (initialState\<lparr>orchestratorIntentDetails := [(''0xc3'', 9)]\<rparr>))))
       = [OrdersDiscordPost Fulfilled ''0xc3'' 0 [],
          DepositStatusUpdate 5 (Some 9) Fulfilled ''0xc3'',
          TelegramNotice 5 Fulfilled (Some 9) ''0xc3'']"
proof -
  have h1: "map_of (orchestratorIntentDetails initialState)
      (toLowerCase (rawIntentHash \<lparr>rawEventType = Some ''orchestrator'', rawType = ''fulfilled'',
         rawIntentHash = ''0xC3'', rawDepositId = None, rawVerifier = None\<rparr>)) = None"
    by (simp add: initialState_def)
  have h2: "(\<forall>l \<in> set orchestratorLogs. transactionHash l = ''0xt1'' \<and> isOrchestrator (parsed l)
            \<and> map_of (orchestratorIntentDetails initialState) (intentOf (parsed l)) = None)
        \<and> map_of (pendingTransactions initialState) ''0xt1'' = None"
    by (simp add: orchestratorLogs_def initialState_def)
  have r: "fst (snd (processCompletedTransaction quietEnv ''0xt1''
        (handleAll orchestratorLogs
           (initialState\<lparr>orchestratorIntentDetails := [(''0xc3'', 9)]\<rparr>))))
       = [OrdersDiscordPost Fulfilled ''0xc3'' 0 [],
          DepositStatusUpdate 5 (Some 9) Fulfilled ''0xc3'',
          TelegramNotice 5 Fulfilled (Some 9) ''0xc3'']"
    by code_simp
  note w = orchestrator_notification_skipped_without_details
    [of initialState "\<lparr>rawEventType = Some ''orchestrator'', rawType = ''fulfilled'',
         rawIntentHash = ''0xC3'', rawDepositId = None, rawVerifier = None\<rparr>" quietEnv
        orchestratorLogs "''0xt1''" initialState]
  from w h1 h2 r orchestratorLogs_run show ?thesis by simp
qed

end
